theory Spec2Isabelle
  imports Main
begin

section \<open>The asynchronous socket of sockio (sockio/aio.py)\<close>

text \<open>
  The module wraps the stream reader and writer of the platform's networking
  library in a class \<open>Socket\<close> that reconnects on demand. The reader, the
  writer and \<open>open_connection\<close> belong to that library, not to the module, so they
  are a parameter of every definition below: a \<open>transport\<close> is a record of
  functions over a network state \<open>'n\<close>. Each function takes the network state and gives
  back what the call returns or raises, with the new network state. A reader or
  writer object is a handle (a natural number) into the network state.
\<close>

type_synonym bytes = string

datatype terror =
  ConnectFailed | IncompleteRead | SeparatorNotFound | ConnectionLost | InvalidArgument

text \<open>
  What a method of \<open>Socket\<close> raises: the \<open>ConnectionError\<close> of \<open>open\<close>
  (line 37), the \<open>AttributeError\<close> of a method call on a handle that is
  \<open>None\<close>, or an error of the transport passed through unchanged.
\<close>

datatype error = AlreadyConnected | NotConnected | Transport terror

record 'n transport =
  open_connection :: "string \<Rightarrow> int \<Rightarrow> 'n \<Rightarrow> (terror + nat \<times> nat) \<times> 'n"
  at_eof :: "nat \<Rightarrow> 'n \<Rightarrow> bool"
  reader_read :: "nat \<Rightarrow> int \<Rightarrow> 'n \<Rightarrow> (terror + bytes) \<times> 'n"
  reader_readline :: "nat \<Rightarrow> 'n \<Rightarrow> (terror + bytes) \<times> 'n"
  reader_readexactly :: "nat \<Rightarrow> int \<Rightarrow> 'n \<Rightarrow> (terror + bytes) \<times> 'n"
  reader_readuntil :: "nat \<Rightarrow> bytes \<Rightarrow> 'n \<Rightarrow> (terror + bytes) \<times> 'n"
  writer_write :: "nat \<Rightarrow> bytes \<Rightarrow> 'n \<Rightarrow> (terror + unit) \<times> 'n"
  writer_writelines :: "nat \<Rightarrow> bytes list \<Rightarrow> 'n \<Rightarrow> (terror + unit) \<times> 'n"
  writer_drain :: "nat \<Rightarrow> 'n \<Rightarrow> (terror + unit) \<times> 'n"
  writer_close :: "nat \<Rightarrow> 'n \<Rightarrow> (terror + unit) \<times> 'n"
  writer_wait_closed :: "nat \<Rightarrow> 'n \<Rightarrow> (terror + unit) \<times> 'n"

subsection \<open>The Socket object\<close>

text \<open>
  The fields of \<open>Socket.__init__\<close> (lines 26-33). The field \<open>_lock\<close> only matters
  when several callers run at once; it is the \<open>lock\<close> of the scheduler state further
  down.
\<close>

record socket =
  host :: string
  port :: int
  auto_reconnect :: bool
  connection_counter :: int
  reader :: "nat option"
  writer :: "nat option"

definition Socket_init :: "string \<Rightarrow> int \<Rightarrow> bool \<Rightarrow> socket" where
  "Socket_init h p ar =
     \<lparr>host = h, port = p, auto_reconnect = ar, connection_counter = 0,
      reader = None, writer = None\<rparr>"

text \<open>The property \<open>connected\<close> (lines 49-54).\<close>

definition Socket_connected :: "'n transport \<Rightarrow> socket \<Rightarrow> 'n \<Rightarrow> bool" where
  "Socket_connected T s net =
     (case reader s of
        None \<Rightarrow> False
      | Some r \<Rightarrow> (let eof = at_eof T r net in \<not> eof))"

text \<open>\<open>Socket.open\<close> (lines 35-40).\<close>

definition Socket_open ::
  "'n transport \<Rightarrow> socket \<Rightarrow> 'n \<Rightarrow> (error + unit) \<times> socket \<times> 'n" where
  "Socket_open T s net =
     (if Socket_connected T s net then (Inl AlreadyConnected, s, net)
      else
        (case open_connection T (host s) (port s) net of
           (Inl e, net') \<Rightarrow> (Inl (Transport e), s, net')
         | (Inr (r, w), net') \<Rightarrow>
             (Inr (),
              s\<lparr>reader := Some r, writer := Some w,
                connection_counter := connection_counter s + 1\<rparr>,
              net')))"

text \<open>\<open>Socket.close\<close> (lines 42-47): nothing catches what the writer raises.\<close>

definition Socket_close ::
  "'n transport \<Rightarrow> socket \<Rightarrow> 'n \<Rightarrow> (error + unit) \<times> socket \<times> 'n" where
  "Socket_close T s net =
     (case writer s of
        None \<Rightarrow> (Inr (), s\<lparr>reader := None, writer := None\<rparr>, net)
      | Some w \<Rightarrow>
          (case writer_close T w net of
             (Inl e, net1) \<Rightarrow> (Inl (Transport e), s, net1)
           | (Inr u, net1) \<Rightarrow>
               (case writer_wait_closed T w net1 of
                  (Inl e, net2) \<Rightarrow> (Inl (Transport e), s, net2)
                | (Inr v, net2) \<Rightarrow>
                    (Inr (), s\<lparr>reader := None, writer := None\<rparr>, net2))))"

subsection \<open>The undecorated operations\<close>

text \<open>
  What an awaited call on a handle gives the method: the value, or the transport's
  error passed through. The methods never assign to a field, so the object comes back
  as it went in.
\<close>

definition awaited :: "(terror + 'a) \<times> 'n \<Rightarrow> socket \<Rightarrow> (error + 'a) \<times> socket \<times> 'n" where
  "awaited r s =
     (case r of
        (Inl e, net') \<Rightarrow> (Inl (Transport e), s, net')
      | (Inr v, net') \<Rightarrow> (Inr v, s, net'))"

text \<open>
  The bodies of lines 57-91, before the decorator is applied. A method call on
  \<open>self._reader\<close> or \<open>self._writer\<close> that is \<open>None\<close> raises (\<open>NotConnected\<close>).
  An omitted \<open>n\<close> of \<open>read\<close> is \<open>-1\<close>, an omitted separator is the newline.
\<close>

definition read_body :: "'n transport \<Rightarrow> int \<Rightarrow> socket \<Rightarrow> 'n \<Rightarrow> (error + bytes) \<times> socket \<times> 'n" where
  "read_body T n s net =
     (case reader s of
        None \<Rightarrow> (Inl NotConnected, s, net)
      | Some r \<Rightarrow> awaited (reader_read T r n net) s)"

definition readline_body :: "'n transport \<Rightarrow> socket \<Rightarrow> 'n \<Rightarrow> (error + bytes) \<times> socket \<times> 'n" where
  "readline_body T s net =
     (case reader s of
        None \<Rightarrow> (Inl NotConnected, s, net)
      | Some r \<Rightarrow> awaited (reader_readline T r net) s)"

definition readexactly_body ::
  "'n transport \<Rightarrow> int \<Rightarrow> socket \<Rightarrow> 'n \<Rightarrow> (error + bytes) \<times> socket \<times> 'n" where
  "readexactly_body T n s net =
     (case reader s of
        None \<Rightarrow> (Inl NotConnected, s, net)
      | Some r \<Rightarrow> awaited (reader_readexactly T r n net) s)"

definition readuntil_body ::
  "'n transport \<Rightarrow> bytes \<Rightarrow> socket \<Rightarrow> 'n \<Rightarrow> (error + bytes) \<times> socket \<times> 'n" where
  "readuntil_body T separator s net =
     (case reader s of
        None \<Rightarrow> (Inl NotConnected, s, net)
      | Some r \<Rightarrow> awaited (reader_readuntil T r separator net) s)"

definition write_body :: "'n transport \<Rightarrow> bytes \<Rightarrow> socket \<Rightarrow> 'n \<Rightarrow> (error + unit) \<times> socket \<times> 'n" where
  "write_body T data s net =
     (case writer s of
        None \<Rightarrow> (Inl NotConnected, s, net)
      | Some w \<Rightarrow>
          (case writer_write T w data net of
             (Inl e, net1) \<Rightarrow> (Inl (Transport e), s, net1)
           | (Inr u, net1) \<Rightarrow> awaited (writer_drain T w net1) s))"

definition writelines_body ::
  "'n transport \<Rightarrow> bytes list \<Rightarrow> socket \<Rightarrow> 'n \<Rightarrow> (error + unit) \<times> socket \<times> 'n" where
  "writelines_body T lines s net =
     (case writer s of
        None \<Rightarrow> (Inl NotConnected, s, net)
      | Some w \<Rightarrow>
          (case writer_writelines T w lines net of
             (Inl e, net1) \<Rightarrow> (Inl (Transport e), s, net1)
           | (Inr u, net1) \<Rightarrow> awaited (writer_drain T w net1) s))"

text \<open>Lines 89-91 are the two statements of \<open>write\<close> followed by the one of \<open>readline\<close>.\<close>

definition write_readline_body ::
  "'n transport \<Rightarrow> bytes \<Rightarrow> socket \<Rightarrow> 'n \<Rightarrow> (error + bytes) \<times> socket \<times> 'n" where
  "write_readline_body T data s net =
     (case write_body T data s net of
        (Inl e, s1, net1) \<Rightarrow> (Inl e, s1, net1)
      | (Inr u, s1, net1) \<Rightarrow> readline_body T s1 net1)"

text \<open>
  An asynchronous generator, consumed to its end, is the list of the items it yielded and
  the error that ended it, if one did. The loop \<open>for i in range(n): yield await
  self._reader.readline()\<close> runs \<open>k\<close> times.
\<close>

fun readlines_loop ::
  "'n transport \<Rightarrow> nat \<Rightarrow> socket \<Rightarrow> 'n \<Rightarrow> (bytes list \<times> error option) \<times> socket \<times> 'n" where
  "readlines_loop T 0 s net = (([], None), s, net)"
| "readlines_loop T (Suc k) s net =
     (case readline_body T s net of
        (Inl e, s1, net1) \<Rightarrow> (([], Some e), s1, net1)
      | (Inr l, s1, net1) \<Rightarrow>
          (case readlines_loop T k s1 net1 of
             ((ls, e), s2, net2) \<Rightarrow> ((l # ls, e), s2, net2)))"

text \<open>\<open>range(n)\<close> is empty for \<open>n \<le> 0\<close>: \<open>nat n\<close> iterations.\<close>

definition readlines_body ::
  "'n transport \<Rightarrow> int \<Rightarrow> socket \<Rightarrow> 'n \<Rightarrow> (bytes list \<times> error option) \<times> socket \<times> 'n" where
  "readlines_body T n s net = readlines_loop T (nat n) s net"

definition write_readlines_body ::
  "'n transport \<Rightarrow> bytes \<Rightarrow> int \<Rightarrow> socket \<Rightarrow> 'n
     \<Rightarrow> (bytes list \<times> error option) \<times> socket \<times> 'n" where
  "write_readlines_body T data n s net =
     (case write_body T data s net of
        (Inl e, s1, net1) \<Rightarrow> (([], Some e), s1, net1)
      | (Inr u, s1, net1) \<Rightarrow> readlines_loop T (nat n) s1 net1)"

text \<open>Lines 101-107; the argument \<open>n\<close> is \<open>None\<close> when the caller omits it.\<close>

definition writelines_readlines_body ::
  "'n transport \<Rightarrow> bytes list \<Rightarrow> int option \<Rightarrow> socket \<Rightarrow> 'n
     \<Rightarrow> (bytes list \<times> error option) \<times> socket \<times> 'n" where
  "writelines_readlines_body T lines n s net =
     (let n' = (case n of None \<Rightarrow> int (length lines) | Some c \<Rightarrow> c) in
      case writelines_body T lines s net of
        (Inl e, s1, net1) \<Rightarrow> (([], Some e), s1, net1)
      | (Inr u, s1, net1) \<Rightarrow> readlines_loop T (nat n') s1 net1)"

subsection \<open>The decorator \<open>ensure_connection\<close>, one caller at a time\<close>

text \<open>
  With a single caller the lock of lines 9 and 15 is free when the wrapper starts and free
  again when it ends, so it does not show here. Lines 8-12, for a coroutine function:
\<close>

definition ensure_connection ::
  "'n transport \<Rightarrow> (socket \<Rightarrow> 'n \<Rightarrow> (error + 'a) \<times> socket \<times> 'n)
     \<Rightarrow> socket \<Rightarrow> 'n \<Rightarrow> (error + 'a) \<times> socket \<times> 'n" where
  "ensure_connection T f s net =
     (if auto_reconnect s \<and> \<not> Socket_connected T s net then
        (case Socket_open T s net of
           (Inl e, s1, net1) \<Rightarrow> (Inl e, s1, net1)
         | (Inr u, s1, net1) \<Rightarrow> f s1 net1)
      else f s net)"

text \<open>Lines 14-20, for an asynchronous generator function, consumed to its end.\<close>

definition ensure_connection_gen ::
  "'n transport \<Rightarrow> (socket \<Rightarrow> 'n \<Rightarrow> (bytes list \<times> error option) \<times> socket \<times> 'n)
     \<Rightarrow> socket \<Rightarrow> 'n \<Rightarrow> (bytes list \<times> error option) \<times> socket \<times> 'n" where
  "ensure_connection_gen T g s net =
     (if auto_reconnect s \<and> \<not> Socket_connected T s net then
        (case Socket_open T s net of
           (Inl e, s1, net1) \<Rightarrow> (([], Some e), s1, net1)
         | (Inr u, s1, net1) \<Rightarrow> g s1 net1)
      else g s net)"

subsection \<open>The public operations\<close>

definition Socket_read :: "'n transport \<Rightarrow> int \<Rightarrow> socket \<Rightarrow> 'n \<Rightarrow> (error + bytes) \<times> socket \<times> 'n" where
  "Socket_read T n = ensure_connection T (read_body T n)"

definition Socket_readline :: "'n transport \<Rightarrow> socket \<Rightarrow> 'n \<Rightarrow> (error + bytes) \<times> socket \<times> 'n" where
  "Socket_readline T = ensure_connection T (readline_body T)"

definition Socket_readlines ::
  "'n transport \<Rightarrow> int \<Rightarrow> socket \<Rightarrow> 'n \<Rightarrow> (bytes list \<times> error option) \<times> socket \<times> 'n" where
  "Socket_readlines T n = ensure_connection_gen T (readlines_body T n)"

definition Socket_readexactly ::
  "'n transport \<Rightarrow> int \<Rightarrow> socket \<Rightarrow> 'n \<Rightarrow> (error + bytes) \<times> socket \<times> 'n" where
  "Socket_readexactly T n = ensure_connection T (readexactly_body T n)"

definition Socket_readuntil ::
  "'n transport \<Rightarrow> bytes \<Rightarrow> socket \<Rightarrow> 'n \<Rightarrow> (error + bytes) \<times> socket \<times> 'n" where
  "Socket_readuntil T separator = ensure_connection T (readuntil_body T separator)"

definition Socket_write :: "'n transport \<Rightarrow> bytes \<Rightarrow> socket \<Rightarrow> 'n \<Rightarrow> (error + unit) \<times> socket \<times> 'n" where
  "Socket_write T data = ensure_connection T (write_body T data)"

definition Socket_writelines ::
  "'n transport \<Rightarrow> bytes list \<Rightarrow> socket \<Rightarrow> 'n \<Rightarrow> (error + unit) \<times> socket \<times> 'n" where
  "Socket_writelines T lines = ensure_connection T (writelines_body T lines)"

definition Socket_write_readline ::
  "'n transport \<Rightarrow> bytes \<Rightarrow> socket \<Rightarrow> 'n \<Rightarrow> (error + bytes) \<times> socket \<times> 'n" where
  "Socket_write_readline T data = ensure_connection T (write_readline_body T data)"

definition Socket_write_readlines ::
  "'n transport \<Rightarrow> bytes \<Rightarrow> int \<Rightarrow> socket \<Rightarrow> 'n
     \<Rightarrow> (bytes list \<times> error option) \<times> socket \<times> 'n" where
  "Socket_write_readlines T data n = ensure_connection_gen T (write_readlines_body T data n)"

definition Socket_writelines_readlines ::
  "'n transport \<Rightarrow> bytes list \<Rightarrow> int option \<Rightarrow> socket \<Rightarrow> 'n
     \<Rightarrow> (bytes list \<times> error option) \<times> socket \<times> 'n" where
  "Socket_writelines_readlines T lines n =
     ensure_connection_gen T (writelines_readlines_body T lines n)"

text \<open>
  One call of a public operation by a caller who consumes the result: the ten
  operations as one datatype, and what the caller ends up with. A generator that raised
  gives the caller that error.
\<close>

datatype request =
  Read int | Readline | Readlines int | Readexactly int | Readuntil bytes
| Write bytes | Writelines "bytes list" | Write_readline bytes
| Write_readlines bytes int | Writelines_readlines "bytes list" "int option"

datatype response = Data bytes | Nothing | Lines "bytes list"

definition returned ::
  "('a \<Rightarrow> response) \<Rightarrow> (error + 'a) \<times> socket \<times> 'n \<Rightarrow> (error + response) \<times> socket \<times> 'n" where
  "returned k r =
     (case r of
        (Inl e, s1, net1) \<Rightarrow> (Inl e, s1, net1)
      | (Inr v, s1, net1) \<Rightarrow> (Inr (k v), s1, net1))"

definition consumed ::
  "(bytes list \<times> error option) \<times> socket \<times> 'n \<Rightarrow> (error + response) \<times> socket \<times> 'n" where
  "consumed r =
     (case r of
        ((ls, None), s1, net1) \<Rightarrow> (Inr (Lines ls), s1, net1)
      | ((ls, Some e), s1, net1) \<Rightarrow> (Inl e, s1, net1))"

fun perform :: "'n transport \<Rightarrow> request \<Rightarrow> socket \<Rightarrow> 'n \<Rightarrow> (error + response) \<times> socket \<times> 'n" where
  "perform T (Read n) s net = returned Data (Socket_read T n s net)"
| "perform T Readline s net = returned Data (Socket_readline T s net)"
| "perform T (Readlines n) s net = consumed (Socket_readlines T n s net)"
| "perform T (Readexactly n) s net = returned Data (Socket_readexactly T n s net)"
| "perform T (Readuntil sep) s net = returned Data (Socket_readuntil T sep s net)"
| "perform T (Write d) s net = returned (\<lambda>u. Nothing) (Socket_write T d s net)"
| "perform T (Writelines ls) s net = returned (\<lambda>u. Nothing) (Socket_writelines T ls s net)"
| "perform T (Write_readline d) s net = returned Data (Socket_write_readline T d s net)"
| "perform T (Write_readlines d n) s net = consumed (Socket_write_readlines T d n s net)"
| "perform T (Writelines_readlines ls n) s net =
     consumed (Socket_writelines_readlines T ls n s net)"

text \<open>The same call with the decorator taken off: the body alone.\<close>

fun perform_body ::
  "'n transport \<Rightarrow> request \<Rightarrow> socket \<Rightarrow> 'n \<Rightarrow> (error + response) \<times> socket \<times> 'n" where
  "perform_body T (Read n) s net = returned Data (read_body T n s net)"
| "perform_body T Readline s net = returned Data (readline_body T s net)"
| "perform_body T (Readlines n) s net = consumed (readlines_body T n s net)"
| "perform_body T (Readexactly n) s net = returned Data (readexactly_body T n s net)"
| "perform_body T (Readuntil sep) s net = returned Data (readuntil_body T sep s net)"
| "perform_body T (Write d) s net = returned (\<lambda>u. Nothing) (write_body T d s net)"
| "perform_body T (Writelines ls) s net = returned (\<lambda>u. Nothing) (writelines_body T ls s net)"
| "perform_body T (Write_readline d) s net = returned Data (write_readline_body T d s net)"
| "perform_body T (Write_readlines d n) s net = consumed (write_readlines_body T d n s net)"
| "perform_body T (Writelines_readlines ls n) s net =
     consumed (writelines_readlines_body T ls n s net)"

subsection \<open>Several callers: the lock of \<open>ensure_connection\<close>\<close>

text \<open>
  The callers are tasks of one event loop: a task runs until it awaits something that is
  not ready, and only then may another task run. The scheduler state keeps, for every
  task, the operation it called and where it stands in the wrapper, and the lock of the
  Socket (free, or taken by the task named).

  A task is \<open>Pending\<close> before line 9 (or 15) has taken the lock, \<open>Opening\<close> while it
  awaits \<open>self.open()\<close> on line 11 (or 17), \<open>Body k\<close> while it runs the body of the
  decorated method with \<open>k\<close> awaits still to complete, and \<open>Done\<close> afterwards.
\<close>

datatype wrapper = Coroutine | AsyncGen

text \<open>
  The test of lines 7 and 13: a method whose body has a \<open>yield\<close> is an asynchronous
  generator function, the others are coroutine functions.
\<close>

fun wrapper_of :: "request \<Rightarrow> wrapper" where
  "wrapper_of (Readlines n) = AsyncGen"
| "wrapper_of (Write_readlines d n) = AsyncGen"
| "wrapper_of (Writelines_readlines ls n) = AsyncGen"
| "wrapper_of rq = Coroutine"

text \<open>The number of \<open>await\<close> expressions a run of the body goes through.\<close>

fun awaits :: "request \<Rightarrow> nat" where
  "awaits (Readlines n) = nat n"
| "awaits (Write_readline d) = 2"
| "awaits (Write_readlines d n) = 1 + nat n"
| "awaits (Writelines_readlines ls n) =
     1 + nat (case n of None \<Rightarrow> int (length ls) | Some c \<Rightarrow> c)"
| "awaits rq = 1"

datatype status = Pending | Opening | Body nat | Done

record sched =
  lock :: "nat option"
  tasks :: "(request \<times> status) list"

text \<open>
  What the event loop can do next: let task \<open>i\<close> enter its wrapper (the flag says whether
  the test of line 10 or 16 finds a reconnect necessary), let the await that task \<open>i\<close> is
  suspended in complete, or let that await raise (an error of the transport, a
  cancellation, or the consumer dropping the generator).
\<close>

datatype event = Enter nat bool | Resume nat | Raise nat

fun target :: "event \<Rightarrow> nat" where
  "target (Enter i b) = i"
| "target (Resume i) = i"
| "target (Raise i) = i"

text \<open>
  One step of task \<open>i\<close>, from the lock and its status to the new lock and status;
  \<open>None\<close> when the task cannot take the step (a pending task waits while the lock is
  taken). The coroutine wrapper leaves \<open>async with self._lock\<close> after the body has
  returned or raised (line 12 is inside the block). The generator wrapper leaves it after
  line 18, which only creates the generator object: the body runs in the loop of lines
  19-20, outside the block.
\<close>

fun task_step ::
  "request \<Rightarrow> nat \<Rightarrow> event \<Rightarrow> nat option \<Rightarrow> status \<Rightarrow> (nat option \<times> status) option" where
  "task_step rq i (Enter j b) l Pending =
     (if l \<noteq> None then None
      else if b then Some (Some i, Opening)
      else (case wrapper_of rq of
              Coroutine \<Rightarrow> Some (Some i, Body (awaits rq))
            | AsyncGen \<Rightarrow> Some (None, Body (awaits rq))))"
| "task_step rq i (Resume j) l Opening =
     (case wrapper_of rq of
        Coroutine \<Rightarrow> Some (l, Body (awaits rq))
      | AsyncGen \<Rightarrow> Some (None, Body (awaits rq)))"
| "task_step rq i (Resume j) l (Body (Suc k)) = Some (l, Body k)"
| "task_step rq i (Resume j) l (Body 0) =
     (case wrapper_of rq of
        Coroutine \<Rightarrow> Some (None, Done)
      | AsyncGen \<Rightarrow> Some (l, Done))"
| "task_step rq i (Raise j) l Opening = Some (None, Done)"
| "task_step rq i (Raise j) l (Body k) =
     (case wrapper_of rq of
        Coroutine \<Rightarrow> Some (None, Done)
      | AsyncGen \<Rightarrow> Some (l, Done))"
| "task_step rq i e l st = None"

definition step :: "event \<Rightarrow> sched \<Rightarrow> sched option" where
  "step e c =
     (let i = target e in
      if i < length (tasks c) then
        (case tasks c ! i of
           (rq, st) \<Rightarrow>
             (case task_step rq i e (lock c) st of
                None \<Rightarrow> None
              | Some (l', st') \<Rightarrow> Some \<lparr>lock = l', tasks = (tasks c)[i := (rq, st')]\<rparr>))
      else None)"

fun run :: "event list \<Rightarrow> sched \<Rightarrow> sched option" where
  "run [] c = Some c"
| "run (e # es) c = (case step e c of None \<Rightarrow> None | Some c' \<Rightarrow> run es c')"

definition start :: "request list \<Rightarrow> sched" where
  "start rqs = \<lparr>lock = None, tasks = map (\<lambda>rq. (rq, Pending)) rqs\<rparr>"

text \<open>
  A task is inside its critical section while it performs the implicit reconnect or the
  body of the operation.
\<close>

fun in_section :: "status \<Rightarrow> bool" where
  "in_section Opening = True"
| "in_section (Body k) = True"
| "in_section st = False"

definition in_section_tasks :: "sched \<Rightarrow> nat list" where
  "in_section_tasks c = filter (\<lambda>i. in_section (snd (tasks c ! i))) [0..<length (tasks c)]"

text \<open>The part of a critical section that the wrapper runs inside \<open>async with self._lock\<close>.\<close>

fun under_lock :: "request \<times> status \<Rightarrow> bool" where
  "under_lock (rq, Opening) = True"
| "under_lock (rq, Body k) = (wrapper_of rq = Coroutine)"
| "under_lock (rq, st) = False"

subsection \<open>A scripted transport for concrete runs\<close>

text \<open>
  A transport to run the operations on: every connection it accepts receives the bytes
  \<open>reply\<close> from the peer, which then closes its side. The handle of a connection is its
  index in \<open>conns\<close>.
\<close>

record conn =
  inbuf :: bytes
  outbuf :: bytes
  is_closed :: bool

record fake_net =
  conns :: "conn list"
  reachable :: bool
  reply :: bytes
  shutdown_fails :: bool

definition on_conn ::
  "nat \<Rightarrow> fake_net \<Rightarrow> (conn \<Rightarrow> (terror + 'a) \<times> conn) \<Rightarrow> (terror + 'a) \<times> fake_net" where
  "on_conn h net f =
     (if h < length (conns net) then
        (case f (conns net ! h) of
           (r, c') \<Rightarrow> (r, net\<lparr>conns := (conns net)[h := c']\<rparr>))
      else (Inl ConnectionLost, net))"

definition split_line :: "bytes \<Rightarrow> bytes \<times> bytes" where
  "split_line buf =
     (case dropWhile (\<lambda>c. c \<noteq> CHR 0x0A) buf of
        [] \<Rightarrow> (buf, [])
      | c # rest \<Rightarrow> (takeWhile (\<lambda>c. c \<noteq> CHR 0x0A) buf @ [c], rest))"

fun split_sep :: "bytes \<Rightarrow> bytes \<Rightarrow> bytes \<Rightarrow> (bytes \<times> bytes) option" where
  "split_sep sep acc [] = None"
| "split_sep sep acc (c # cs) =
     (if take (length sep) (c # cs) = sep then Some (acc @ sep, drop (length sep) (c # cs))
      else split_sep sep (acc @ [c]) cs)"

definition fake_open :: "string \<Rightarrow> int \<Rightarrow> fake_net \<Rightarrow> (terror + nat \<times> nat) \<times> fake_net" where
  "fake_open h p net =
     (if reachable net then
        (Inr (length (conns net), length (conns net)),
         net\<lparr>conns := conns net @ [\<lparr>inbuf = reply net, outbuf = [], is_closed = False\<rparr>]\<rparr>)
      else (Inl ConnectFailed, net))"

definition fake_at_eof :: "nat \<Rightarrow> fake_net \<Rightarrow> bool" where
  "fake_at_eof h net = (if h < length (conns net) then inbuf (conns net ! h) = [] else True)"

definition fake_read :: "nat \<Rightarrow> int \<Rightarrow> fake_net \<Rightarrow> (terror + bytes) \<times> fake_net" where
  "fake_read h n net =
     on_conn h net (\<lambda>c.
       let k = (if n < 0 then length (inbuf c) else nat n) in
       (Inr (take k (inbuf c)), c\<lparr>inbuf := drop k (inbuf c)\<rparr>))"

definition fake_readline :: "nat \<Rightarrow> fake_net \<Rightarrow> (terror + bytes) \<times> fake_net" where
  "fake_readline h net =
     on_conn h net (\<lambda>c. case split_line (inbuf c) of (l, rest) \<Rightarrow> (Inr l, c\<lparr>inbuf := rest\<rparr>))"

definition fake_readexactly :: "nat \<Rightarrow> int \<Rightarrow> fake_net \<Rightarrow> (terror + bytes) \<times> fake_net" where
  "fake_readexactly h n net =
     on_conn h net (\<lambda>c.
       if n < 0 then (Inl InvalidArgument, c)
       else if length (inbuf c) < nat n then (Inl IncompleteRead, c\<lparr>inbuf := []\<rparr>)
       else (Inr (take (nat n) (inbuf c)), c\<lparr>inbuf := drop (nat n) (inbuf c)\<rparr>))"

definition fake_readuntil :: "nat \<Rightarrow> bytes \<Rightarrow> fake_net \<Rightarrow> (terror + bytes) \<times> fake_net" where
  "fake_readuntil h sep net =
     on_conn h net (\<lambda>c.
       case split_sep sep [] (inbuf c) of
         None \<Rightarrow> (Inl SeparatorNotFound, c\<lparr>inbuf := []\<rparr>)
       | Some (found, rest) \<Rightarrow> (Inr found, c\<lparr>inbuf := rest\<rparr>))"

definition fake_write :: "nat \<Rightarrow> bytes \<Rightarrow> fake_net \<Rightarrow> (terror + unit) \<times> fake_net" where
  "fake_write h d net = on_conn h net (\<lambda>c. (Inr (), c\<lparr>outbuf := outbuf c @ d\<rparr>))"

definition fake_writelines :: "nat \<Rightarrow> bytes list \<Rightarrow> fake_net \<Rightarrow> (terror + unit) \<times> fake_net" where
  "fake_writelines h ls net = on_conn h net (\<lambda>c. (Inr (), c\<lparr>outbuf := outbuf c @ concat ls\<rparr>))"

definition fake_drain :: "nat \<Rightarrow> fake_net \<Rightarrow> (terror + unit) \<times> fake_net" where
  "fake_drain h net = on_conn h net (\<lambda>c. (Inr (), c))"

definition fake_close :: "nat \<Rightarrow> fake_net \<Rightarrow> (terror + unit) \<times> fake_net" where
  "fake_close h net = on_conn h net (\<lambda>c. (Inr (), c\<lparr>is_closed := True\<rparr>))"

definition fake_wait_closed :: "nat \<Rightarrow> fake_net \<Rightarrow> (terror + unit) \<times> fake_net" where
  "fake_wait_closed h net =
     (if shutdown_fails net then (Inl ConnectionLost, net) else (Inr (), net))"

definition fake :: "fake_net transport" where
  "fake =
     \<lparr>open_connection = fake_open, at_eof = fake_at_eof, reader_read = fake_read,
      reader_readline = fake_readline, reader_readexactly = fake_readexactly,
      reader_readuntil = fake_readuntil, writer_write = fake_write,
      writer_writelines = fake_writelines, writer_drain = fake_drain,
      writer_close = fake_close, writer_wait_closed = fake_wait_closed\<rparr>"

text \<open>
  A server that answers every connection with one identification line, and the same
  server with a shutdown that reports a lost connection.
\<close>

definition idn_net :: fake_net where
  "idn_net = \<lparr>conns = [], reachable = True, reply = ''ACME,1.0'' @ [CHR 0x0A],
              shutdown_fails = False\<rparr>"

definition lossy_net :: fake_net where
  "lossy_net = idn_net\<lparr>shutdown_fails := True\<rparr>"

text \<open>
  Objects and network states of the runs below: a Socket that reconnects by itself, before
  and after its first \<open>open\<close> and after a second one; a Socket that does not; the network
  after the first connection is accepted, after its bytes are read to the end, after a
  request is written and answered, after the writer is closed, and after a second
  connection is accepted beside the first.
\<close>

definition dev :: socket where
  "dev = Socket_init ''device'' 5025 True"

definition dev1 :: socket where
  "dev1 = \<lparr>host = ''device'', port = 5025, auto_reconnect = True, connection_counter = 1,
           reader = Some 0, writer = Some 0\<rparr>"

definition dev2 :: socket where
  "dev2 = \<lparr>host = ''device'', port = 5025, auto_reconnect = True, connection_counter = 2,
           reader = Some 1, writer = Some 1\<rparr>"

definition bench :: socket where
  "bench = Socket_init ''device'' 5025 False"

definition idn_net1 :: fake_net where
  "idn_net1 = idn_net\<lparr>conns :=
     [\<lparr>inbuf = ''ACME,1.0'' @ [CHR 0x0A], outbuf = [], is_closed = False\<rparr>]\<rparr>"

definition idn_net1_eof :: fake_net where
  "idn_net1_eof = idn_net\<lparr>conns := [\<lparr>inbuf = [], outbuf = [], is_closed = False\<rparr>]\<rparr>"

definition idn_net1_asked :: fake_net where
  "idn_net1_asked = idn_net\<lparr>conns :=
     [\<lparr>inbuf = [], outbuf = ''*IDN?'' @ [CHR 0x0A], is_closed = False\<rparr>]\<rparr>"

definition idn_net1_closed :: fake_net where
  "idn_net1_closed = idn_net\<lparr>conns :=
     [\<lparr>inbuf = ''ACME,1.0'' @ [CHR 0x0A], outbuf = [], is_closed = True\<rparr>]\<rparr>"

definition idn_net2 :: fake_net where
  "idn_net2 = idn_net\<lparr>conns :=
     [\<lparr>inbuf = [], outbuf = [], is_closed = False\<rparr>,
      \<lparr>inbuf = ''ACME,1.0'' @ [CHR 0x0A], outbuf = [], is_closed = False\<rparr>]\<rparr>"

definition lossy_net1 :: fake_net where
  "lossy_net1 = lossy_net\<lparr>conns :=
     [\<lparr>inbuf = ''ACME,1.0'' @ [CHR 0x0A], outbuf = [], is_closed = False\<rparr>]\<rparr>"

definition lossy_net1_closed :: fake_net where
  "lossy_net1_closed = lossy_net\<lparr>conns :=
     [\<lparr>inbuf = ''ACME,1.0'' @ [CHR 0x0A], outbuf = [], is_closed = True\<rparr>]\<rparr>"

text \<open>
  A network state with a single connection, given by the bytes still to be read and the
  bytes written so far; and a server that answers every connection with two lines.
\<close>

definition one_conn :: "fake_net \<Rightarrow> bytes \<Rightarrow> bytes \<Rightarrow> fake_net" where
  "one_conn net inb outb = net\<lparr>conns := [\<lparr>inbuf = inb, outbuf = outb, is_closed = False\<rparr>]\<rparr>"

definition scpi_net :: fake_net where
  "scpi_net = \<lparr>conns = [], reachable = True,
               reply = ''ACME,1.0'' @ [CHR 0x0A] @ ''0,No error'' @ [CHR 0x0A],
               shutdown_fails = False\<rparr>"

subsection \<open>Predicates of the statements\<close>

text \<open>
  What the transport answers to successive \<open>readline\<close> calls on the reader \<open>r\<close>:
  \<open>nets\<close> holds the network state before the first call, between two calls and after
  the last one, \<open>ls\<close> the lines returned, in order. Call \<open>i\<close> is made in state
  \<open>nets ! i\<close>, returns \<open>ls ! i\<close> and leaves the transport in state \<open>nets ! Suc i\<close>.
\<close>

definition line_replies :: "'n transport \<Rightarrow> nat \<Rightarrow> 'n list \<Rightarrow> bytes list \<Rightarrow> bool" where
  "line_replies T r nets ls =
     (length nets = Suc (length ls)
      \<and> (\<forall>i < length ls. reader_readline T r (nets ! i) = (Inr (ls ! i), nets ! Suc i)))"

text \<open>
  A call whose body never reaches a handle: \<open>readlines(n)\<close> with an empty \<open>range(n)\<close>.
\<close>

fun empty_stream :: "request \<Rightarrow> bool" where
  "empty_stream (Readlines n) = (n \<le> 0)"
| "empty_stream rq = False"

text \<open>
  The lock is taken by task \<open>i\<close> exactly while task \<open>i\<close> is in the part of its wrapper
  that lies inside \<open>async with self._lock\<close>.
\<close>

definition lock_inv :: "sched \<Rightarrow> bool" where
  "lock_inv c = (\<forall>i < length (tasks c). under_lock (tasks c ! i) = (lock c = Some i))"

section \<open>Properties\<close>

subsection \<open>Facts about the definitions\<close>

lemmas fake_defs = fake_def fake_open_def fake_at_eof_def fake_read_def fake_readline_def
  fake_readexactly_def fake_readuntil_def fake_write_def fake_writelines_def fake_drain_def
  fake_close_def fake_wait_closed_def on_conn_def split_line_def idn_net_def lossy_net_def

lemmas dev_defs = dev_def dev1_def dev2_def bench_def Socket_init_def idn_net1_def
  idn_net1_eof_def idn_net1_asked_def idn_net1_closed_def idn_net2_def lossy_net1_def
  lossy_net1_closed_def

lemmas body_defs = read_body_def readline_body_def readexactly_body_def readuntil_body_def
  write_body_def writelines_body_def write_readline_body_def readlines_body_def
  write_readlines_body_def writelines_readlines_body_def awaited_def

lemmas op_defs = Socket_read_def Socket_readline_def Socket_readlines_def Socket_readexactly_def
  Socket_readuntil_def Socket_write_def Socket_writelines_def Socket_write_readline_def
  Socket_write_readlines_def Socket_writelines_readlines_def

lemma readline_body_socket: "readline_body T s net = (r, s1, net1) \<Longrightarrow> s1 = s"
  by (auto simp: readline_body_def awaited_def split: option.splits prod.splits sum.splits)

lemma readlines_loop_socket: "readlines_loop T k s net = (r, s', net') \<Longrightarrow> s' = s"
proof (induction k arbitrary: net r s' net')
  case 0
  then show ?case by simp
next
  case (Suc k)
  obtain x s1 net1 where rb: "readline_body T s net = (x, s1, net1)"
    by (cases "readline_body T s net") auto
  then have s1: "s1 = s"
    by (rule readline_body_socket)
  show ?case
  proof (cases x)
    case (Inl e)
    with Suc.prems rb s1 show ?thesis by auto
  next
    case (Inr l)
    obtain ls e s2 net2 where rec: "readlines_loop T k s net1 = ((ls, e), s2, net2)"
      by (cases "readlines_loop T k s net1") auto
    then have "s2 = s"
      by (rule Suc.IH)
    with Suc.prems rb Inr rec s1 show ?thesis by simp
  qed
qed

lemma readlines_loop_length:
  "readlines_loop T k s net = ((ls, None), s', net') \<Longrightarrow> length ls = k"
proof (induction k arbitrary: net ls)
  case 0
  then show ?case by simp
next
  case (Suc k)
  obtain x s1 net1 where rb: "readline_body T s net = (x, s1, net1)"
    by (cases "readline_body T s net") auto
  then have s1: "s1 = s"
    by (rule readline_body_socket)
  show ?case
  proof (cases x)
    case (Inl e)
    with Suc.prems rb show ?thesis by simp
  next
    case (Inr l)
    obtain ms e s2 net2 where rec: "readlines_loop T k s net1 = ((ms, e), s2, net2)"
      by (cases "readlines_loop T k s net1") auto
    with Suc.prems rb Inr s1 have "ls = l # ms" "e = None" "s2 = s'" "net2 = net'"
      by simp_all
    with rec Suc.IH [of net1 ms] show ?thesis by simp
  qed
qed

lemma perform_body_socket: "fst (snd (perform_body T rq s net)) = s"
  by (cases rq)
     (auto simp: body_defs returned_def consumed_def Let_def
           split: option.splits prod.splits sum.splits
           dest: readlines_loop_socket)

lemma perform_after_open:
  assumes "auto_reconnect s" and "\<not> Socket_connected T s net"
    and "Socket_open T s net = (Inr (), s1, net1)"
  shows "perform T rq s net = perform_body T rq s1 net1"
  using assms by (cases rq) (simp_all add: op_defs ensure_connection_def ensure_connection_gen_def)

lemma perform_no_reconnect:
  assumes "\<not> auto_reconnect s \<or> Socket_connected T s net"
  shows "perform T rq s net = perform_body T rq s net"
  using assms by (cases rq) (auto simp add: op_defs ensure_connection_def ensure_connection_gen_def)

lemma open_dev: "Socket_open fake dev idn_net = (Inr (), dev1, idn_net1)"
  by (simp add: Socket_open_def Socket_connected_def dev_defs fake_defs)

lemma connected_dev1: "Socket_connected fake dev1 idn_net1"
  by (simp add: Socket_connected_def dev_defs fake_defs)

lemma read_all_dev1: "Socket_read fake (- 1) dev1 idn_net1 = (Inr (''ACME,1.0'' @ [CHR 0x0A]), dev1, idn_net1_eof)"
  by (simp add: Socket_read_def ensure_connection_def read_body_def awaited_def Socket_connected_def dev_defs fake_defs)

lemma close_dev1: "Socket_close fake dev1 idn_net1 = (Inr (), dev1\<lparr>reader := None, writer := None\<rparr>,
   idn_net1_closed)"
  by (simp add: Socket_close_def dev_defs fake_defs)

lemma close_dev1_lossy:
  "Socket_close fake dev1 lossy_net1 = (Inl (Transport ConnectionLost), dev1, lossy_net1_closed)"
  by (simp add: Socket_close_def dev_defs fake_defs)

lemma line_replies_Nil: "line_replies T r nets [] = (length nets = Suc 0)"
  by (simp add: line_replies_def)

lemma line_replies_Cons:
  "line_replies T r (n0 # nets) (l # ls) =
     (reader_readline T r n0 = (Inr l, nets ! 0) \<and> line_replies T r nets ls)"
proof -
  have "(\<forall>i < Suc (length ls).
           reader_readline T r ((n0 # nets) ! i) = (Inr ((l # ls) ! i), nets ! i))
        = (reader_readline T r n0 = (Inr l, nets ! 0)
           \<and> (\<forall>i < length ls. reader_readline T r (nets ! i) = (Inr (ls ! i), nets ! Suc i)))"
    by (auto simp: less_Suc_eq_0_disj)
  then show ?thesis
    by (auto simp: line_replies_def)
qed

lemma readlines_loop_replies:
  assumes "reader s = Some r" and "line_replies T r nets ls"
  shows "readlines_loop T (length ls) s (nets ! 0) = ((ls, None), s, last nets)"
  using assms(2)
proof (induction ls arbitrary: nets)
  case Nil
  then obtain n0 where "nets = [n0]"
    by (cases nets) (auto simp: line_replies_Nil)
  then show ?case by simp
next
  case (Cons l ls)
  then obtain n0 rest where n: "nets = n0 # rest"
    by (cases nets) (auto simp: line_replies_def)
  with Cons.prems have
    rl: "reader_readline T r n0 = (Inr l, rest ! 0)" and lr: "line_replies T r rest ls"
    by (simp_all add: line_replies_Cons)
  from lr have ne: "rest \<noteq> []"
    by (auto simp: line_replies_def)
  have "readlines_loop T (length ls) s (rest ! 0) = ((ls, None), s, last rest)"
    using Cons.IH [OF lr] .
  with rl assms(1) n ne show ?case
    by (simp add: readline_body_def awaited_def)
qed

lemma readlines_loop_trace:
  assumes "readlines_loop T k s net = ((ls, None), s', net')"
  shows "\<exists>nets. length ls = k \<and> nets ! 0 = net \<and> last nets = net'
           \<and> (0 < k \<longrightarrow> reader s \<noteq> None)
           \<and> (\<forall>r. reader s = Some r \<longrightarrow> line_replies T r nets ls)"
  using assms
proof (induction k arbitrary: net ls)
  case 0
  then have "ls = []" "net' = net" by simp_all
  then have "length ls = 0 \<and> [net] ! 0 = net \<and> last [net] = net'
      \<and> (\<forall>r. reader s = Some r \<longrightarrow> line_replies T r [net] ls)"
    by (simp add: line_replies_Nil)
  then show ?case by blast
next
  case (Suc k)
  obtain x s1 net1 where rb: "readline_body T s net = (x, s1, net1)"
    by (cases "readline_body T s net") auto
  then have s1: "s1 = s"
    by (rule readline_body_socket)
  show ?case
  proof (cases x)
    case (Inl e)
    with Suc.prems rb show ?thesis by simp
  next
    case (Inr l)
    obtain ms e s2 net2 where rec: "readlines_loop T k s net1 = ((ms, e), s2, net2)"
      by (cases "readlines_loop T k s net1") auto
    with Suc.prems rb Inr s1 have eqs: "ls = l # ms" "e = None" "s2 = s'" "net2 = net'"
      by simp_all
    from Suc.IH [of net1 ms] rec eqs obtain nets where
      nets: "length ms = k" "nets ! 0 = net1" "last nets = net'"
        "\<forall>r. reader s = Some r \<longrightarrow> line_replies T r nets ms"
      by auto
    from rb Inr obtain r where r: "reader s = Some r"
      and rl: "reader_readline T r net = (Inr l, net1)"
      by (auto simp: readline_body_def awaited_def split: option.splits prod.splits sum.splits)
    from nets(4) r have lr: "line_replies T r nets ms" by simp
    then have ne: "nets \<noteq> []"
      by (auto simp: line_replies_def)
    have "line_replies T r (net # nets) (l # ms)"
      using rl lr nets(2) by (simp add: line_replies_Cons)
    with eqs nets ne r
    have "length ls = Suc k \<and> (net # nets) ! 0 = net \<and> last (net # nets) = net'
        \<and> (0 < Suc k \<longrightarrow> reader s \<noteq> None)
        \<and> (\<forall>r. reader s = Some r \<longrightarrow> line_replies T r (net # nets) ls)"
      by simp
    then show ?thesis by blast
  qed
qed

lemma read_body_reply:
  "reader s = Some r \<Longrightarrow> reader_read T r n net = (Inr b, net')
     \<Longrightarrow> read_body T n s net = (Inr b, s, net')"
  by (simp add: read_body_def awaited_def)

lemma readline_body_reply:
  "reader s = Some r \<Longrightarrow> reader_readline T r net = (Inr b, net')
     \<Longrightarrow> readline_body T s net = (Inr b, s, net')"
  by (simp add: readline_body_def awaited_def)

lemma readexactly_body_reply:
  "reader s = Some r \<Longrightarrow> reader_readexactly T r n net = (Inr b, net')
     \<Longrightarrow> readexactly_body T n s net = (Inr b, s, net')"
  by (simp add: readexactly_body_def awaited_def)

lemma readuntil_body_reply:
  "reader s = Some r \<Longrightarrow> reader_readuntil T r sep net = (Inr b, net')
     \<Longrightarrow> readuntil_body T sep s net = (Inr b, s, net')"
  by (simp add: readuntil_body_def awaited_def)

lemma write_body_reply:
  "writer s = Some w \<Longrightarrow> writer_write T w d net = (Inr (), net1)
     \<Longrightarrow> writer_drain T w net1 = (Inr (), net2)
     \<Longrightarrow> write_body T d s net = (Inr (), s, net2)"
  by (simp add: write_body_def awaited_def)

lemma writelines_body_reply:
  "writer s = Some w \<Longrightarrow> writer_writelines T w ds net = (Inr (), net1)
     \<Longrightarrow> writer_drain T w net1 = (Inr (), net2)
     \<Longrightarrow> writelines_body T ds s net = (Inr (), s, net2)"
  by (simp add: writelines_body_def awaited_def)

lemma write_readline_body_reply:
  "reader s = Some r \<Longrightarrow> writer s = Some w \<Longrightarrow> writer_write T w d net = (Inr (), net1)
     \<Longrightarrow> writer_drain T w net1 = (Inr (), net2)
     \<Longrightarrow> reader_readline T r net2 = (Inr b, net3)
     \<Longrightarrow> write_readline_body T d s net = (Inr b, s, net3)"
  by (simp add: write_readline_body_def write_body_reply readline_body_reply)

lemma readlines_body_reply:
  "reader s = Some r \<Longrightarrow> line_replies T r nets ls \<Longrightarrow> nets ! 0 = net
     \<Longrightarrow> length ls = nat k
     \<Longrightarrow> readlines_body T k s net = ((ls, None), s, last nets)"
  using readlines_loop_replies [of s r T nets ls] by (simp add: readlines_body_def)

lemma write_readlines_body_reply:
  "reader s = Some r \<Longrightarrow> writer s = Some w \<Longrightarrow> writer_write T w d net = (Inr (), net1)
     \<Longrightarrow> writer_drain T w net1 = (Inr (), net2)
     \<Longrightarrow> line_replies T r nets ls \<Longrightarrow> nets ! 0 = net2 \<Longrightarrow> length ls = nat k
     \<Longrightarrow> write_readlines_body T d k s net = ((ls, None), s, last nets)"
  using readlines_loop_replies [of s r T nets ls]
  by (simp add: write_readlines_body_def write_body_reply)

lemma writelines_readlines_body_reply:
  "reader s = Some r \<Longrightarrow> writer s = Some w \<Longrightarrow> writer_writelines T w ds net = (Inr (), net1)
     \<Longrightarrow> writer_drain T w net1 = (Inr (), net2)
     \<Longrightarrow> line_replies T r nets ls \<Longrightarrow> nets ! 0 = net2
     \<Longrightarrow> length ls = (case c of None \<Rightarrow> length ds | Some k \<Rightarrow> nat k)
     \<Longrightarrow> writelines_readlines_body T ds c s net = ((ls, None), s, last nets)"
  using readlines_loop_replies [of s r T nets ls]
  by (cases c) (simp_all add: writelines_readlines_body_def writelines_body_reply)

lemmas scpi_defs = one_conn_def scpi_net_def

lemma scpi_replies:
  "line_replies fake 0
     [one_conn scpi_net (''ACME,1.0'' @ [CHR 0x0A] @ ''0,No error'' @ [CHR 0x0A]) out,
      one_conn scpi_net (''0,No error'' @ [CHR 0x0A]) out,
      one_conn scpi_net [] out]
     [''ACME,1.0'' @ [CHR 0x0A], ''0,No error'' @ [CHR 0x0A]]"
  by (simp add: line_replies_Cons line_replies_Nil scpi_defs fake_defs)

subsection \<open>The lock\<close>

lemma task_step_inv:
  assumes "task_step rq i e l st = Some (l', st')"
    and "under_lock (rq, st) = (l = Some i)"
  shows "under_lock (rq, st') = (l' = Some i)
    \<and> (\<forall>j. j \<noteq> i \<longrightarrow> (l' = Some j) = (l = Some j))"
  using assms
  by (cases "(rq, i, e, l, st)" rule: task_step.cases)
     (auto split: if_splits wrapper.splits)

lemma step_inv:
  assumes "lock_inv c" and "step e c = Some c'"
  shows "lock_inv c'"
proof -
  let ?i = "target e"
  from assms(2) have i: "?i < length (tasks c)"
    by (auto simp: step_def Let_def split: if_splits)
  obtain rq st where t: "tasks c ! ?i = (rq, st)"
    by (cases "tasks c ! ?i") auto
  from assms(2) i t obtain l' st' where
    ts: "task_step rq ?i e (lock c) st = Some (l', st')"
    and c': "c' = \<lparr>lock = l', tasks = (tasks c)[?i := (rq, st')]\<rparr>"
    by (auto simp: step_def Let_def split: option.splits)
  from assms(1) i t have "under_lock (rq, st) = (lock c = Some ?i)"
    by (auto simp: lock_inv_def)
  from task_step_inv [OF ts this] have
    a: "under_lock (rq, st') = (l' = Some ?i)" and
    b: "\<And>j. j \<noteq> ?i \<Longrightarrow> (l' = Some j) = (lock c = Some j)"
    by auto
  show ?thesis
    unfolding lock_inv_def
  proof (intro allI impI)
    fix j
    assume "j < length (tasks c')"
    then have j: "j < length (tasks c)"
      by (simp add: c')
    show "under_lock (tasks c' ! j) = (lock c' = Some j)"
    proof (cases "j = ?i")
      case True
      with a i show ?thesis by (simp add: c')
    next
      case False
      with b [of j] assms(1) j show ?thesis
        by (simp add: c' lock_inv_def)
    qed
  qed
qed

lemma run_inv: "lock_inv c \<Longrightarrow> run es c = Some c' \<Longrightarrow> lock_inv c'"
  by (induction es arbitrary: c) (auto split: option.splits dest: step_inv)

lemma start_inv: "lock_inv (start rqs)"
  by (simp add: lock_inv_def start_def)

lemma step_requests: "step e c = Some c' \<Longrightarrow> map fst (tasks c') = map fst (tasks c)"
  by (auto simp: step_def Let_def map_update split: if_splits option.splits prod.splits)
     (metis fst_conv list_update_id map_update)

lemma run_requests: "run es c = Some c' \<Longrightarrow> map fst (tasks c') = map fst (tasks c)"
  by (induction es arbitrary: c) (auto split: option.splits dest: step_requests)

theorem lock_excludes:
  assumes "run es (start rqs) = Some c"
    and "i < length (tasks c)" and "j < length (tasks c)"
    and "under_lock (tasks c ! i)" and "under_lock (tasks c ! j)"
  shows "i = j"
proof -
  have "lock_inv c"
    using run_inv [OF start_inv assms(1)] .
  with assms(2-5) have "lock c = Some i" "lock c = Some j"
    by (auto simp: lock_inv_def)
  then show ?thesis by simp
qed

theorem coroutine_sections_exclusive:
  assumes "run es (start rqs) = Some c"
    and "\<forall>rq \<in> set rqs. wrapper_of rq = Coroutine"
    and "i < length (tasks c)" and "j < length (tasks c)"
    and "in_section (snd (tasks c ! i))" and "in_section (snd (tasks c ! j))"
  shows "i = j"
proof -
  have m: "map fst (tasks c) = rqs"
    using run_requests [OF assms(1)] by (simp add: start_def comp_def)
  have u: "under_lock (tasks c ! k)" if "k < length (tasks c)" "in_section (snd (tasks c ! k))" for k
  proof -
    obtain rq st where t: "tasks c ! k = (rq, st)"
      by (cases "tasks c ! k") auto
    have "rq = rqs ! k"
      using m that(1) t by (metis fst_conv nth_map)
    moreover have "k < length rqs"
      using m that(1) by (metis length_map)
    ultimately have "wrapper_of rq = Coroutine"
      using assms(2) by simp
    with that(2) t show ?thesis
      by (cases st) simp_all
  qed
  show ?thesis
    using lock_excludes [OF assms(1) assms(3) assms(4)] u assms(3-6) by blast
qed

text \<open>
  Claim C1 (the code departs from it). Two callers of \<open>readlines(2)\<close> on one Socket: the
  first reconnects and, once \<open>open\<close> has returned, leaves the lock and starts reading; the
  second then passes the free lock and starts reading too. Both bodies are now suspended
  in \<open>readline\<close> on the same reader, with the lock free: two critical sections at the same
  instant.
\<close>

theorem streaming_sections_overlap:
  "run [Enter 0 True, Resume 0, Enter 1 False] (start [Readlines 2, Readlines 2]) =
     Some \<lparr>lock = None, tasks = [(Readlines 2, Body 2), (Readlines 2, Body 2)]\<rparr>
   \<and> in_section_tasks
        \<lparr>lock = None, tasks = [(Readlines 2, Body 2), (Readlines 2, Body 2)]\<rparr> = [0, 1]"
  by (simp add: step_def start_def in_section_tasks_def upt_rec)

text \<open>
  Claim C2 (the code departs from it). A caller of \<open>readlines(3)\<close> has consumed one line
  of three when another caller's \<open>write\<close> takes the lock and runs its critical section:
  the generator wrapper released the lock before the first line was read.
\<close>

theorem stream_consumer_does_not_exclude:
  "run [Enter 0 True, Resume 0, Resume 0, Enter 1 False]
       (start [Readlines 3, Write ''PING'']) =
     Some \<lparr>lock = Some 1, tasks = [(Readlines 3, Body 2), (Write ''PING'', Body 1)]\<rparr>"
  by (simp add: step_def start_def numeral_3_eq_3)

subsection \<open>The life cycle\<close>

text \<open>
  Claim C6. After a successful \<open>open\<close> the connection counter is larger by exactly
  one; \<open>open\<close> on a connected Socket fails with \<open>AlreadyConnected\<close> and leaves the
  counter and the stored handles (the whole object, and the network) as they were.
\<close>

theorem open_counter_and_already_connected:
  "(Socket_open T s net = (Inr (), s', net')
      \<longrightarrow> connection_counter s' = connection_counter s + 1)
   \<and> (Socket_connected T s net
      \<longrightarrow> Socket_open T s net = (Inl AlreadyConnected, s, net))"
  by (auto simp: Socket_open_def split: prod.splits sum.splits if_splits)

theorem open_counter_and_already_connected_witness:
  "Socket_open fake dev idn_net = (Inr (), dev1, idn_net1)
   \<and> connection_counter dev1 = connection_counter dev + 1
   \<and> Socket_connected fake dev1 idn_net1
   \<and> Socket_open fake dev1 idn_net1 = (Inl AlreadyConnected, dev1, idn_net1)"
  using open_counter_and_already_connected [of fake dev idn_net dev1 idn_net1]
    open_counter_and_already_connected [of fake dev1 idn_net1]
    open_dev connected_dev1
  by simp

text \<open>
  Claim C7. \<open>connected\<close> is false whenever there is no reader handle, in particular on a
  new object and after a \<open>close\<close> that returned; with a handle it is true exactly when
  the reader is not at end of stream in the network state of the moment of the call.
\<close>

theorem connected_query:
  "(reader s = None \<longrightarrow> \<not> Socket_connected T s net)
   \<and> (reader s = Some r \<longrightarrow> Socket_connected T s net = (\<not> at_eof T r net))
   \<and> \<not> Socket_connected T (Socket_init h p ar) net
   \<and> (Socket_close T s net = (Inr (), s', net') \<longrightarrow> \<not> Socket_connected T s' net'')"
  by (auto simp: Socket_connected_def Socket_init_def Socket_close_def
           split: option.splits prod.splits sum.splits)

theorem connected_query_witness:
  "\<not> Socket_connected fake dev idn_net
   \<and> Socket_connected fake dev1 idn_net1
   \<and> Socket_read fake (- 1) dev1 idn_net1 = (Inr (''ACME,1.0'' @ [CHR 0x0A]), dev1, idn_net1_eof)
   \<and> \<not> Socket_connected fake dev1 idn_net1_eof
   \<and> \<not> Socket_connected fake (dev1\<lparr>reader := None, writer := None\<rparr>) idn_net1"
proof -
  have r: "reader dev1 = Some 0"
    by (simp add: dev1_def)
  have a: "\<not> Socket_connected fake dev idn_net"
    using connected_query [where T = fake and h = "''device''" and p = 5025 and ar = True
        and net = idn_net]
    by (simp add: dev_def)
  have b: "Socket_connected fake dev1 idn_net1"
    using connected_query [where T = fake and s = dev1 and r = 0 and net = idn_net1] r
    by (simp add: idn_net1_def fake_defs)
  have c: "\<not> Socket_connected fake dev1 idn_net1_eof"
    using connected_query [where T = fake and s = dev1 and r = 0 and net = idn_net1_eof] r
    by (simp add: idn_net1_eof_def fake_defs)
  have d: "\<not> Socket_connected fake (dev1\<lparr>reader := None, writer := None\<rparr>) idn_net1"
    using connected_query [where T = fake and s = dev1 and net = idn_net1
        and s' = "dev1\<lparr>reader := None, writer := None\<rparr>" and net'' = idn_net1] close_dev1
    by simp
  show ?thesis
    using a b c d read_all_dev1 by simp
qed

text \<open>
  Claim C5 (as amended). \<open>close\<close> clears both handles and returns normally when
  there is no writer, and when the transport's shutdown (\<open>close\<close>, then
  \<open>wait_closed\<close>) reports no error; a \<open>close\<close> that returned leaves the Socket
  disconnected. An error reported by either step of the shutdown is raised to the caller,
  and the object is left as it was, handles included.
\<close>

theorem close_clears_unless_shutdown_raises:
  "(writer s = None \<longrightarrow>
      Socket_close T s net = (Inr (), s\<lparr>reader := None, writer := None\<rparr>, net))
   \<and> (writer s = Some w \<longrightarrow> writer_close T w net = (Inr (), net1)
        \<longrightarrow> writer_wait_closed T w net1 = (Inr (), net2)
        \<longrightarrow> Socket_close T s net = (Inr (), s\<lparr>reader := None, writer := None\<rparr>, net2))
   \<and> (writer s = Some w \<longrightarrow> writer_close T w net = (Inl te, net1)
        \<longrightarrow> Socket_close T s net = (Inl (Transport te), s, net1))
   \<and> (writer s = Some w \<longrightarrow> writer_close T w net = (Inr (), net1)
        \<longrightarrow> writer_wait_closed T w net1 = (Inl te, net2)
        \<longrightarrow> Socket_close T s net = (Inl (Transport te), s, net2))
   \<and> (Socket_close T s net = (Inr (), s', net')
        \<longrightarrow> reader s' = None \<and> writer s' = None \<and> \<not> Socket_connected T s' net')
   \<and> (Socket_close T s net = (Inl e, s', net')
        \<longrightarrow> s' = s \<and> writer s \<noteq> None \<and> (\<exists>te. e = Transport te))"
  by (auto simp: Socket_close_def Socket_connected_def split: option.splits prod.splits sum.splits)

theorem close_clears_unless_shutdown_raises_witness:
  "Socket_close fake dev idn_net = (Inr (), dev, idn_net)
   \<and> Socket_close fake dev1 idn_net1 =
       (Inr (), dev1\<lparr>reader := None, writer := None\<rparr>, idn_net1_closed)
   \<and> \<not> Socket_connected fake (dev1\<lparr>reader := None, writer := None\<rparr>) idn_net1_closed
   \<and> Socket_close fake dev1 lossy_net1 = (Inl (Transport ConnectionLost), dev1, lossy_net1_closed)
   \<and> writer dev1 \<noteq> None"
proof -
  have a: "Socket_close fake dev idn_net = (Inr (), dev, idn_net)"
    using close_clears_unless_shutdown_raises [where T = fake and s = dev and net = idn_net]
    by (simp add: dev_def Socket_init_def)
  have wc: "writer_close fake 0 idn_net1 = (Inr (), idn_net1_closed)"
    by (simp add: dev_defs fake_defs)
  have ww: "writer_wait_closed fake 0 idn_net1_closed = (Inr (), idn_net1_closed)"
    by (simp add: dev_defs fake_defs)
  have lc: "writer_close fake 0 lossy_net1 = (Inr (), lossy_net1_closed)"
    by (simp add: dev_defs fake_defs)
  have lw: "writer_wait_closed fake 0 lossy_net1_closed = (Inl ConnectionLost, lossy_net1_closed)"
    by (simp add: dev_defs fake_defs)
  have w: "writer dev1 = Some 0"
    by (simp add: dev1_def)
  have b: "Socket_close fake dev1 idn_net1 =
       (Inr (), dev1\<lparr>reader := None, writer := None\<rparr>, idn_net1_closed)"
    using close_clears_unless_shutdown_raises [where T = fake and s = dev1 and net = idn_net1
        and w = 0 and ?net1.0 = idn_net1_closed and ?net2.0 = idn_net1_closed] wc ww w
    by simp
  have c: "\<not> Socket_connected fake (dev1\<lparr>reader := None, writer := None\<rparr>) idn_net1_closed"
    using close_clears_unless_shutdown_raises [where T = fake and s = dev1 and net = idn_net1
        and s' = "dev1\<lparr>reader := None, writer := None\<rparr>" and net' = idn_net1_closed] b
    by simp
  have d: "Socket_close fake dev1 lossy_net1 =
       (Inl (Transport ConnectionLost), dev1, lossy_net1_closed)"
    using close_clears_unless_shutdown_raises [where T = fake and s = dev1 and net = lossy_net1
        and w = 0 and ?net1.0 = lossy_net1_closed and ?net2.0 = lossy_net1_closed
        and te = ConnectionLost] lc lw w
    by simp
  have e: "writer dev1 \<noteq> None"
    using close_clears_unless_shutdown_raises [where T = fake and s = dev1 and net = lossy_net1
        and e = "Transport ConnectionLost" and s' = dev1 and net' = lossy_net1_closed] d
    by simp
  show ?thesis
    using a b c d e by simp
qed


text \<open>
  Claim C5 as stated fails: on a connection whose \<open>wait_closed\<close> reports the lost
  connection, \<open>close\<close> raises that error and keeps the handles.
\<close>

theorem close_raises_counterexample:
  "Socket_open fake dev lossy_net = (Inr (), dev1, lossy_net1)
   \<and> Socket_close fake dev1 lossy_net1 = (Inl (Transport ConnectionLost), dev1, lossy_net1_closed)
   \<and> reader dev1 = Some 0 \<and> Socket_connected fake dev1 lossy_net1_closed"
  by (simp add: Socket_open_def Socket_close_def Socket_connected_def dev_defs fake_defs)

text \<open>
  Claim C8 (as amended). \<open>close\<close> on a Socket without handles changes nothing and
  raises nothing; after a \<open>close\<close> that returned, the Socket is not connected, and a
  second \<open>close\<close> changes nothing, raises nothing and leaves it not connected.
\<close>

theorem close_idempotent:
  "(reader s = None \<longrightarrow> writer s = None \<longrightarrow> Socket_close T s net = (Inr (), s, net))
   \<and> (Socket_close T s net = (Inr (), s', net')
        \<longrightarrow> \<not> Socket_connected T s' net'
            \<and> Socket_close T s' net' = (Inr (), s', net')
            \<and> \<not> Socket_connected T s' net')"
  by (auto simp: Socket_close_def Socket_connected_def split: option.splits prod.splits sum.splits)

theorem close_idempotent_witness:
  "Socket_close fake dev idn_net = (Inr (), dev, idn_net)
   \<and> Socket_close fake dev1 idn_net1 =
       (Inr (), dev1\<lparr>reader := None, writer := None\<rparr>, idn_net1_closed)
   \<and> \<not> Socket_connected fake (dev1\<lparr>reader := None, writer := None\<rparr>) idn_net1_closed
   \<and> Socket_close fake (dev1\<lparr>reader := None, writer := None\<rparr>) idn_net1_closed =
       (Inr (), dev1\<lparr>reader := None, writer := None\<rparr>, idn_net1_closed)"
proof -
  have a: "Socket_close fake dev idn_net = (Inr (), dev, idn_net)"
    using close_idempotent [where T = fake and s = dev and net = idn_net]
    by (simp add: dev_def Socket_init_def)
  have b: "\<not> Socket_connected fake (dev1\<lparr>reader := None, writer := None\<rparr>) idn_net1_closed
     \<and> Socket_close fake (dev1\<lparr>reader := None, writer := None\<rparr>) idn_net1_closed =
       (Inr (), dev1\<lparr>reader := None, writer := None\<rparr>, idn_net1_closed)"
    using close_idempotent [where T = fake and s = dev1 and net = idn_net1
        and s' = "dev1\<lparr>reader := None, writer := None\<rparr>" and net' = idn_net1_closed]
      close_dev1
    by simp
  show ?thesis
    using a b close_dev1 by simp
qed

text \<open>
  Claim C8 as stated fails: two calls of \<open>close\<close> in a row on a connection whose
  shutdown reports an error both raise, and the Socket is still connected after each.
\<close>

theorem close_twice_counterexample:
  "Socket_close fake dev1 lossy_net1 = (Inl (Transport ConnectionLost), dev1, lossy_net1_closed)
   \<and> Socket_connected fake dev1 lossy_net1_closed
   \<and> Socket_close fake dev1 lossy_net1_closed =
       (Inl (Transport ConnectionLost), dev1, lossy_net1_closed)"
  by (simp add: Socket_close_def Socket_connected_def dev_defs fake_defs)

text \<open>
  Claim C10. With a reader handle whose stream is at its end, the Socket is not
  connected and \<open>open\<close> does not fail with \<open>AlreadyConnected\<close>. When the transport
  accepts the connection, \<open>open\<close> stores the new handles over the old ones and adds one
  to the counter, and the only call on the transport is \<open>open_connection\<close> (the network
  state is the one it returned: the old transport is not closed). With
  \<open>auto_reconnect\<close> both wrappers do the same before they run the operation.
\<close>

theorem open_over_stale_handle:
  assumes "reader s = Some r" and "at_eof T r net"
  shows "\<not> Socket_connected T s net
    \<and> fst (Socket_open T s net) \<noteq> Inl AlreadyConnected
    \<and> (open_connection T (host s) (port s) net = (Inr (r', w'), net') \<longrightarrow>
         Socket_open T s net =
           (Inr (), s\<lparr>reader := Some r', writer := Some w',
                     connection_counter := connection_counter s + 1\<rparr>, net')
         \<and> (auto_reconnect s \<longrightarrow>
              ensure_connection T f s net =
                f (s\<lparr>reader := Some r', writer := Some w',
                     connection_counter := connection_counter s + 1\<rparr>) net'
              \<and> ensure_connection_gen T g s net =
                g (s\<lparr>reader := Some r', writer := Some w',
                     connection_counter := connection_counter s + 1\<rparr>) net'))"
  using assms
  by (auto simp: Socket_open_def Socket_connected_def ensure_connection_def
        ensure_connection_gen_def split: prod.splits sum.splits)


theorem open_over_stale_handle_witness:
  "\<not> Socket_connected fake dev1 idn_net1_eof
   \<and> Socket_open fake dev1 idn_net1_eof = (Inr (), dev2, idn_net2)
   \<and> connection_counter dev2 = connection_counter dev1 + 1
   \<and> \<not> is_closed (conns idn_net2 ! 0)
   \<and> Socket_readline fake dev1 idn_net1_eof = readline_body fake dev2 idn_net2"
proof -
  have r: "reader dev1 = Some 0"
    by (simp add: dev1_def)
  have e: "at_eof fake 0 idn_net1_eof"
    by (simp add: dev_defs fake_defs)
  have o: "open_connection fake (host dev1) (port dev1) idn_net1_eof = (Inr (1, 1), idn_net2)"
    by (simp add: dev_defs fake_defs)
  have d: "dev1\<lparr>reader := Some 1, writer := Some 1,
             connection_counter := connection_counter dev1 + 1\<rparr> = dev2"
    by (simp add: dev1_def dev2_def)
  have ar: "auto_reconnect dev1"
    by (simp add: dev1_def)
  have c: "\<not> is_closed (conns idn_net2 ! 0)"
    by (simp add: idn_net2_def)
  have n: "connection_counter dev2 = connection_counter dev1 + 1"
    by (simp add: dev1_def dev2_def)
  show ?thesis
    using open_over_stale_handle [OF r e, where r' = 1 and w' = 1 and net' = idn_net2
        and f = "readline_body fake"] o d ar c n
    by (simp add: Socket_readline_def)
qed

text \<open>
  Claim C3. On a new Socket with \<open>auto_reconnect\<close>, when the transport accepts the
  connection, every public operation is its body run on the connection just opened, by one
  \<open>open\<close>: the counter of the object it leaves is 1. And each of the ten operations
  succeeds with what the transport supplies: a read with the bytes of the reader's reply,
  a write once the bytes are written and drained, a streaming operation with the lines of
  the successive \<open>readline\<close> replies.
\<close>

theorem first_operation_opens_once:
  assumes "open_connection T h p net = (Inr (r, w), net1)"
  shows "perform T rq (Socket_init h p True) net =
           perform_body T rq
             \<lparr>host = h, port = p, auto_reconnect = True, connection_counter = 1,
              reader = Some r, writer = Some w\<rparr> net1
    \<and> connection_counter (fst (snd (perform T rq (Socket_init h p True) net))) = 1
    \<and> (reader_read T r n net1 = (Inr b, net2) \<longrightarrow>
         perform T (Read n) (Socket_init h p True) net =
           (Inr (Data b),
            \<lparr>host = h, port = p, auto_reconnect = True, connection_counter = 1,
             reader = Some r, writer = Some w\<rparr>, net2))
    \<and> (reader_readline T r net1 = (Inr b, net2) \<longrightarrow>
         perform T Readline (Socket_init h p True) net =
           (Inr (Data b),
            \<lparr>host = h, port = p, auto_reconnect = True, connection_counter = 1,
             reader = Some r, writer = Some w\<rparr>, net2))
    \<and> (reader_readexactly T r n net1 = (Inr b, net2) \<longrightarrow>
         perform T (Readexactly n) (Socket_init h p True) net =
           (Inr (Data b),
            \<lparr>host = h, port = p, auto_reconnect = True, connection_counter = 1,
             reader = Some r, writer = Some w\<rparr>, net2))
    \<and> (reader_readuntil T r sep net1 = (Inr b, net2) \<longrightarrow>
         perform T (Readuntil sep) (Socket_init h p True) net =
           (Inr (Data b),
            \<lparr>host = h, port = p, auto_reconnect = True, connection_counter = 1,
             reader = Some r, writer = Some w\<rparr>, net2))
    \<and> (writer_write T w d net1 = (Inr (), net2) \<longrightarrow>
       writer_drain T w net2 = (Inr (), net3) \<longrightarrow>
         perform T (Write d) (Socket_init h p True) net =
           (Inr Nothing,
            \<lparr>host = h, port = p, auto_reconnect = True, connection_counter = 1,
             reader = Some r, writer = Some w\<rparr>, net3))
    \<and> (writer_writelines T w ds net1 = (Inr (), net2) \<longrightarrow>
       writer_drain T w net2 = (Inr (), net3) \<longrightarrow>
         perform T (Writelines ds) (Socket_init h p True) net =
           (Inr Nothing,
            \<lparr>host = h, port = p, auto_reconnect = True, connection_counter = 1,
             reader = Some r, writer = Some w\<rparr>, net3))
    \<and> (writer_write T w d net1 = (Inr (), net2) \<longrightarrow>
       writer_drain T w net2 = (Inr (), net3) \<longrightarrow>
       reader_readline T r net3 = (Inr b, net4) \<longrightarrow>
         perform T (Write_readline d) (Socket_init h p True) net =
           (Inr (Data b),
            \<lparr>host = h, port = p, auto_reconnect = True, connection_counter = 1,
             reader = Some r, writer = Some w\<rparr>, net4))
    \<and> (line_replies T r nets ls \<longrightarrow> nets ! 0 = net1 \<longrightarrow> length ls = nat k \<longrightarrow>
         perform T (Readlines k) (Socket_init h p True) net =
           (Inr (Lines ls),
            \<lparr>host = h, port = p, auto_reconnect = True, connection_counter = 1,
             reader = Some r, writer = Some w\<rparr>, last nets))
    \<and> (writer_write T w d net1 = (Inr (), net2) \<longrightarrow>
       writer_drain T w net2 = (Inr (), net3) \<longrightarrow>
       line_replies T r nets ls \<longrightarrow> nets ! 0 = net3 \<longrightarrow> length ls = nat k \<longrightarrow>
         perform T (Write_readlines d k) (Socket_init h p True) net =
           (Inr (Lines ls),
            \<lparr>host = h, port = p, auto_reconnect = True, connection_counter = 1,
             reader = Some r, writer = Some w\<rparr>, last nets))
    \<and> (writer_writelines T w ds net1 = (Inr (), net2) \<longrightarrow>
       writer_drain T w net2 = (Inr (), net3) \<longrightarrow>
       line_replies T r nets ls \<longrightarrow> nets ! 0 = net3 \<longrightarrow>
       length ls = (case c of None \<Rightarrow> length ds | Some k \<Rightarrow> nat k) \<longrightarrow>
         perform T (Writelines_readlines ds c) (Socket_init h p True) net =
           (Inr (Lines ls),
            \<lparr>host = h, port = p, auto_reconnect = True, connection_counter = 1,
             reader = Some r, writer = Some w\<rparr>, last nets))"
proof -
  let ?s = "Socket_init h p True"
  let ?s1 = "\<lparr>host = h, port = p, auto_reconnect = True, connection_counter = 1,
             reader = Some r, writer = Some w\<rparr>"
  have nc: "\<not> Socket_connected T ?s net"
    by (simp add: Socket_connected_def Socket_init_def)
  have op: "Socket_open T ?s net = (Inr (), ?s1, net1)"
    using assms nc by (simp add: Socket_open_def) (simp add: Socket_init_def)
  have eq: "perform T rq ?s net = perform_body T rq ?s1 net1" for rq
    using perform_after_open [OF _ nc op] by (simp add: Socket_init_def)
  have rd: "reader ?s1 = Some r" and wr: "writer ?s1 = Some w"
    by simp_all
  have cnt: "connection_counter (fst (snd (perform T rq ?s net))) = 1"
    using perform_body_socket [of T rq ?s1 net1] by (simp add: eq)
  note replies = read_body_reply [OF rd] readline_body_reply [OF rd]
    readexactly_body_reply [OF rd] readuntil_body_reply [OF rd]
    write_body_reply [OF wr] writelines_body_reply [OF wr]
    write_readline_body_reply [OF rd wr] readlines_body_reply [OF rd]
    write_readlines_body_reply [OF rd wr] writelines_readlines_body_reply [OF rd wr]
  show ?thesis
    unfolding eq
    using cnt [unfolded eq]
    by (simp add: replies returned_def consumed_def del: socket.simps)
qed

theorem first_operation_opens_once_witness:
  "perform fake (Read 4) dev idn_net =
     (Inr (Data ''ACME''), dev1, one_conn idn_net ('',1.0'' @ [CHR 0x0A]) [])
   \<and> perform fake Readline dev idn_net =
     (Inr (Data (''ACME,1.0'' @ [CHR 0x0A])), dev1, one_conn idn_net [] [])
   \<and> perform fake (Readexactly 4) dev idn_net =
     (Inr (Data ''ACME''), dev1, one_conn idn_net ('',1.0'' @ [CHR 0x0A]) [])
   \<and> perform fake (Readuntil '','') dev idn_net =
     (Inr (Data ''ACME,''), dev1, one_conn idn_net (''1.0'' @ [CHR 0x0A]) [])
   \<and> perform fake (Write (''*IDN?'' @ [CHR 0x0A])) dev idn_net =
     (Inr Nothing, dev1, one_conn idn_net (''ACME,1.0'' @ [CHR 0x0A]) (''*IDN?'' @ [CHR 0x0A]))
   \<and> perform fake (Writelines [''*CLS'' @ [CHR 0x0A], ''*IDN?'' @ [CHR 0x0A]]) dev idn_net =
     (Inr Nothing, dev1,
      one_conn idn_net (''ACME,1.0'' @ [CHR 0x0A]) (''*CLS'' @ [CHR 0x0A] @ ''*IDN?'' @ [CHR 0x0A]))
   \<and> perform fake (Write_readline (''*IDN?'' @ [CHR 0x0A])) dev idn_net =
     (Inr (Data (''ACME,1.0'' @ [CHR 0x0A])), dev1, one_conn idn_net [] (''*IDN?'' @ [CHR 0x0A]))
   \<and> perform fake (Readlines 2) dev scpi_net =
     (Inr (Lines [''ACME,1.0'' @ [CHR 0x0A], ''0,No error'' @ [CHR 0x0A]]), dev1,
      one_conn scpi_net [] [])
   \<and> perform fake (Write_readlines (''*IDN?;:SYST:ERR?'' @ [CHR 0x0A]) 2) dev scpi_net =
     (Inr (Lines [''ACME,1.0'' @ [CHR 0x0A], ''0,No error'' @ [CHR 0x0A]]), dev1,
      one_conn scpi_net [] (''*IDN?;:SYST:ERR?'' @ [CHR 0x0A]))
   \<and> perform fake (Writelines_readlines [''*IDN?'' @ [CHR 0x0A], ''SYST:ERR?'' @ [CHR 0x0A]] None)
         dev scpi_net =
     (Inr (Lines [''ACME,1.0'' @ [CHR 0x0A], ''0,No error'' @ [CHR 0x0A]]), dev1,
      one_conn scpi_net [] (''*IDN?'' @ [CHR 0x0A] @ ''SYST:ERR?'' @ [CHR 0x0A]))
   \<and> connection_counter dev = 0 \<and> connection_counter dev1 = 1"
proof -
  have o: "open_connection fake ''device'' 5025 idn_net =
      (Inr (0, 0), one_conn idn_net (''ACME,1.0'' @ [CHR 0x0A]) [])"
    by (simp add: scpi_defs fake_defs)
  have o2: "open_connection fake ''device'' 5025 scpi_net =
      (Inr (0, 0), one_conn scpi_net (''ACME,1.0'' @ [CHR 0x0A] @ ''0,No error'' @ [CHR 0x0A]) [])"
    by (simp add: scpi_defs fake_defs)
  note t = first_operation_opens_once [OF o, folded dev_def dev1_def]
  note t2 = first_operation_opens_once [OF o2, folded dev_def dev1_def]
  have a1: "perform fake (Read 4) dev idn_net =
     (Inr (Data ''ACME''), dev1, one_conn idn_net ('',1.0'' @ [CHR 0x0A]) [])"
    using t [where n = 4 and b = "''ACME''" and ?net2.0 = "one_conn idn_net ('',1.0'' @ [CHR 0x0A]) []"]
    by (simp add: scpi_defs fake_defs)
  have a2: "perform fake Readline dev idn_net =
     (Inr (Data (''ACME,1.0'' @ [CHR 0x0A])), dev1, one_conn idn_net [] [])"
    using t [where b = "''ACME,1.0'' @ [CHR 0x0A]" and ?net2.0 = "one_conn idn_net [] []"]
    by (simp add: scpi_defs fake_defs)
  have a3: "perform fake (Readexactly 4) dev idn_net =
     (Inr (Data ''ACME''), dev1, one_conn idn_net ('',1.0'' @ [CHR 0x0A]) [])"
    using t [where n = 4 and b = "''ACME''" and ?net2.0 = "one_conn idn_net ('',1.0'' @ [CHR 0x0A]) []"]
    by (simp add: scpi_defs fake_defs)
  have a4: "perform fake (Readuntil '','') dev idn_net =
     (Inr (Data ''ACME,''), dev1, one_conn idn_net (''1.0'' @ [CHR 0x0A]) [])"
    using t [where sep = "'',''" and b = "''ACME,''"
        and ?net2.0 = "one_conn idn_net (''1.0'' @ [CHR 0x0A]) []"]
    by (simp add: scpi_defs fake_defs)
  have a5: "perform fake (Write (''*IDN?'' @ [CHR 0x0A])) dev idn_net =
     (Inr Nothing, dev1, one_conn idn_net (''ACME,1.0'' @ [CHR 0x0A]) (''*IDN?'' @ [CHR 0x0A]))"
    using t [where d = "''*IDN?'' @ [CHR 0x0A]"
        and ?net2.0 = "one_conn idn_net (''ACME,1.0'' @ [CHR 0x0A]) (''*IDN?'' @ [CHR 0x0A])"
        and ?net3.0 = "one_conn idn_net (''ACME,1.0'' @ [CHR 0x0A]) (''*IDN?'' @ [CHR 0x0A])"]
    by (simp add: scpi_defs fake_defs)
  have a6: "perform fake (Writelines [''*CLS'' @ [CHR 0x0A], ''*IDN?'' @ [CHR 0x0A]]) dev idn_net =
     (Inr Nothing, dev1,
      one_conn idn_net (''ACME,1.0'' @ [CHR 0x0A]) (''*CLS'' @ [CHR 0x0A] @ ''*IDN?'' @ [CHR 0x0A]))"
    using t [where ds = "[''*CLS'' @ [CHR 0x0A], ''*IDN?'' @ [CHR 0x0A]]"
        and ?net2.0 = "one_conn idn_net (''ACME,1.0'' @ [CHR 0x0A])
                         (''*CLS'' @ [CHR 0x0A] @ ''*IDN?'' @ [CHR 0x0A])"
        and ?net3.0 = "one_conn idn_net (''ACME,1.0'' @ [CHR 0x0A])
                         (''*CLS'' @ [CHR 0x0A] @ ''*IDN?'' @ [CHR 0x0A])"]
    by (simp add: scpi_defs fake_defs)
  have a7: "perform fake (Write_readline (''*IDN?'' @ [CHR 0x0A])) dev idn_net =
     (Inr (Data (''ACME,1.0'' @ [CHR 0x0A])), dev1, one_conn idn_net [] (''*IDN?'' @ [CHR 0x0A]))"
    using t [where d = "''*IDN?'' @ [CHR 0x0A]" and b = "''ACME,1.0'' @ [CHR 0x0A]"
        and ?net2.0 = "one_conn idn_net (''ACME,1.0'' @ [CHR 0x0A]) (''*IDN?'' @ [CHR 0x0A])"
        and ?net3.0 = "one_conn idn_net (''ACME,1.0'' @ [CHR 0x0A]) (''*IDN?'' @ [CHR 0x0A])"
        and ?net4.0 = "one_conn idn_net [] (''*IDN?'' @ [CHR 0x0A])"]
    by (simp add: scpi_defs fake_defs)
  have a8: "perform fake (Readlines 2) dev scpi_net =
     (Inr (Lines [''ACME,1.0'' @ [CHR 0x0A], ''0,No error'' @ [CHR 0x0A]]), dev1,
      one_conn scpi_net [] [])"
    using t2 [where k = 2 and ls = "[''ACME,1.0'' @ [CHR 0x0A], ''0,No error'' @ [CHR 0x0A]]"
        and nets = "[one_conn scpi_net (''ACME,1.0'' @ [CHR 0x0A] @ ''0,No error'' @ [CHR 0x0A]) [],
                     one_conn scpi_net (''0,No error'' @ [CHR 0x0A]) [],
                     one_conn scpi_net [] []]"]
      scpi_replies [of "[]"]
    by simp
  have a9: "perform fake (Write_readlines (''*IDN?;:SYST:ERR?'' @ [CHR 0x0A]) 2) dev scpi_net =
     (Inr (Lines [''ACME,1.0'' @ [CHR 0x0A], ''0,No error'' @ [CHR 0x0A]]), dev1,
      one_conn scpi_net [] (''*IDN?;:SYST:ERR?'' @ [CHR 0x0A]))"
  proof -
    let ?out = "''*IDN?;:SYST:ERR?'' @ [CHR 0x0A]"
    let ?n = "one_conn scpi_net (''ACME,1.0'' @ [CHR 0x0A] @ ''0,No error'' @ [CHR 0x0A]) ?out"
    have w: "writer_write fake 0 ?out
        (one_conn scpi_net (''ACME,1.0'' @ [CHR 0x0A] @ ''0,No error'' @ [CHR 0x0A]) []) =
        (Inr (), ?n)"
      by (simp add: scpi_defs fake_defs)
    have d: "writer_drain fake 0 ?n = (Inr (), ?n)"
      by (simp add: scpi_defs fake_defs)
    show ?thesis
      using t2 [where d = ?out and k = 2 and ?net2.0 = ?n and ?net3.0 = ?n
          and ls = "[''ACME,1.0'' @ [CHR 0x0A], ''0,No error'' @ [CHR 0x0A]]"
          and nets = "[?n, one_conn scpi_net (''0,No error'' @ [CHR 0x0A]) ?out,
                       one_conn scpi_net [] ?out]"]
        scpi_replies [of ?out] w d
      by simp
  qed
  have a10: "perform fake
        (Writelines_readlines [''*IDN?'' @ [CHR 0x0A], ''SYST:ERR?'' @ [CHR 0x0A]] None)
        dev scpi_net =
     (Inr (Lines [''ACME,1.0'' @ [CHR 0x0A], ''0,No error'' @ [CHR 0x0A]]), dev1,
      one_conn scpi_net [] (''*IDN?'' @ [CHR 0x0A] @ ''SYST:ERR?'' @ [CHR 0x0A]))"
  proof -
    let ?out = "''*IDN?'' @ [CHR 0x0A] @ ''SYST:ERR?'' @ [CHR 0x0A]"
    let ?n = "one_conn scpi_net (''ACME,1.0'' @ [CHR 0x0A] @ ''0,No error'' @ [CHR 0x0A]) ?out"
    have w: "writer_writelines fake 0 [''*IDN?'' @ [CHR 0x0A], ''SYST:ERR?'' @ [CHR 0x0A]]
        (one_conn scpi_net (''ACME,1.0'' @ [CHR 0x0A] @ ''0,No error'' @ [CHR 0x0A]) []) =
        (Inr (), ?n)"
      by (simp add: scpi_defs fake_defs)
    have d: "writer_drain fake 0 ?n = (Inr (), ?n)"
      by (simp add: scpi_defs fake_defs)
    show ?thesis
      using t2 [where ds = "[''*IDN?'' @ [CHR 0x0A], ''SYST:ERR?'' @ [CHR 0x0A]]" and c = None
          and ?net2.0 = ?n and ?net3.0 = ?n
          and ls = "[''ACME,1.0'' @ [CHR 0x0A], ''0,No error'' @ [CHR 0x0A]]"
          and nets = "[?n, one_conn scpi_net (''0,No error'' @ [CHR 0x0A]) ?out,
                       one_conn scpi_net [] ?out]"]
        scpi_replies [of ?out] w d
      by simp
  qed
  show ?thesis
    using a1 a2 a3 a4 a5 a6 a7 a8 a9 a10 by (simp add: dev_def dev1_def Socket_init_def)
qed

text \<open>
  Claim C4 (as amended). Without \<open>auto_reconnect\<close>, on a Socket without handles, every
  public operation other than \<open>readlines\<close> with a count of zero or less fails with
  \<open>NotConnected\<close>; it opens nothing and calls nothing on the transport, and the object
  (with its counter) is as before. \<open>readlines(n)\<close> with \<open>n \<le> 0\<close> reaches no handle
  and ends normally with an empty sequence.
\<close>

theorem no_reconnect_not_connected:
  assumes "\<not> auto_reconnect s" and "reader s = None" and "writer s = None"
  shows "(\<not> empty_stream rq \<longrightarrow> perform T rq s net = (Inl NotConnected, s, net))
    \<and> (n \<le> 0 \<longrightarrow> perform T (Readlines n) s net = (Inr (Lines []), s, net))"
proof -
  have rl: "\<And>n. 0 < n \<Longrightarrow> readlines_loop T (nat n) s net = (([], Some NotConnected), s, net)"
  proof -
    fix n :: int
    assume "0 < n"
    then obtain k where "nat n = Suc k"
      by (metis Suc_pred zero_less_nat_eq)
    then show "readlines_loop T (nat n) s net = (([], Some NotConnected), s, net)"
      using assms(2) by (simp add: readline_body_def)
  qed
  have a: "perform_body T rq s net = (Inl NotConnected, s, net)" if "\<not> empty_stream rq"
    using assms(2,3) that
    by (cases rq) (auto simp: body_defs returned_def consumed_def rl Let_def)
  have b: "perform_body T (Readlines n) s net = (Inr (Lines []), s, net)" if "n \<le> 0"
    using that by (simp add: readlines_body_def consumed_def)
  have pa: "perform T rq s net = perform_body T rq s net"
    using perform_no_reconnect [of s T net rq] assms(1) by simp
  have pb: "perform T (Readlines n) s net = perform_body T (Readlines n) s net"
    using perform_no_reconnect [of s T net "Readlines n"] assms(1) by simp
  show ?thesis
    unfolding pa pb using a b by blast
qed

theorem no_reconnect_not_connected_witness:
  "perform fake (Write_readline ''*IDN?'') bench idn_net = (Inl NotConnected, bench, idn_net)
   \<and> perform fake (Readlines 3) bench idn_net = (Inl NotConnected, bench, idn_net)
   \<and> perform fake (Readlines (- 2)) bench idn_net = (Inr (Lines []), bench, idn_net)
   \<and> connection_counter bench = 0"
  using no_reconnect_not_connected [of bench "Write_readline ''*IDN?''" fake idn_net "- 2"]
    no_reconnect_not_connected [of bench "Readlines 3" fake idn_net "- 2"]
  by (simp add: bench_def Socket_init_def)

text \<open>
  Claim C4 as stated fails: \<open>readlines(0)\<close> on a new Socket without
  \<open>auto_reconnect\<close> never reaches the reader and ends normally with no line.
\<close>

theorem readlines_zero_counterexample:
  "perform fake (Readlines 0) bench idn_net = (Inr (Lines []), bench, idn_net)"
  by (simp add: op_defs ensure_connection_gen_def readlines_body_def consumed_def bench_def
        Socket_init_def)

text \<open>
  Claim C9. An omitted count of \<open>writelines_readlines\<close> is the number of lines written.
  When the writer takes the lines and the drain completes, and the reader then answers
  \<open>count\<close> successive \<open>readline\<close> calls starting from the network state the drain left,
  the operation yields exactly those \<open>count\<close> lines. Conversely a call that ended
  without an error has written the lines, drained, and yielded \<open>count\<close> lines that are
  the reader's successive replies from there.
\<close>

theorem writelines_readlines_count:
  "Socket_writelines_readlines T lines None s net =
     Socket_writelines_readlines T lines (Some (int (length lines))) s net
   \<and> ((if auto_reconnect s \<and> \<not> Socket_connected T s net
        then Socket_open T s net = (Inr (), s0, net0) else s0 = s \<and> net0 = net)
       \<longrightarrow> reader s0 = Some r \<longrightarrow> writer s0 = Some w
       \<longrightarrow> writer_writelines T w lines net0 = (Inr (), net1)
       \<longrightarrow> writer_drain T w net1 = (Inr (), net2)
       \<longrightarrow> line_replies T r nets ls \<longrightarrow> nets ! 0 = net2
       \<longrightarrow> length ls = (case n of None \<Rightarrow> length lines | Some c \<Rightarrow> nat c)
       \<longrightarrow> Socket_writelines_readlines T lines n s net = ((ls, None), s0, last nets))
   \<and> (Socket_writelines_readlines T lines (Some c) s net = ((ls', None), s', net')
        \<longrightarrow> length ls' = nat c \<and> (0 \<le> c \<longrightarrow> int (length ls') = c)
          \<and> (\<exists>w net0 net1 net2 nets.
                (if auto_reconnect s \<and> \<not> Socket_connected T s net
                 then Socket_open T s net = (Inr (), s', net0) else s' = s \<and> net0 = net)
              \<and> writer s' = Some w
              \<and> writer_writelines T w lines net0 = (Inr (), net1)
              \<and> writer_drain T w net1 = (Inr (), net2)
              \<and> nets ! 0 = net2 \<and> last nets = net'
              \<and> (0 < c \<longrightarrow> reader s' \<noteq> None)
              \<and> (\<forall>r. reader s' = Some r \<longrightarrow> line_replies T r nets ls')))"
proof -
  have a: "Socket_writelines_readlines T lines None s net =
     Socket_writelines_readlines T lines (Some (int (length lines))) s net"
  proof -
    have "writelines_readlines_body T lines None =
        writelines_readlines_body T lines (Some (int (length lines)))"
      by (intro ext) (simp add: writelines_readlines_body_def)
    then show ?thesis
      by (simp add: Socket_writelines_readlines_def)
  qed
  have b: "Socket_writelines_readlines T lines n s net = ((ls, None), s0, last nets)"
    if entry: "if auto_reconnect s \<and> \<not> Socket_connected T s net
        then Socket_open T s net = (Inr (), s0, net0) else s0 = s \<and> net0 = net"
      and rw: "reader s0 = Some r" "writer s0 = Some w"
      and tr: "writer_writelines T w lines net0 = (Inr (), net1)"
        "writer_drain T w net1 = (Inr (), net2)"
        "line_replies T r nets ls" "nets ! 0 = net2"
        "length ls = (case n of None \<Rightarrow> length lines | Some c \<Rightarrow> nat c)"
  proof -
    have "Socket_writelines_readlines T lines n s net =
        writelines_readlines_body T lines n s0 net0"
      using entry
      by (auto simp: Socket_writelines_readlines_def ensure_connection_gen_def split: if_splits)
    then show ?thesis
      using writelines_readlines_body_reply [OF rw tr] by simp
  qed
  have c: "length ls' = nat c \<and> (0 \<le> c \<longrightarrow> int (length ls') = c)
          \<and> (\<exists>w net0 net1 net2 nets.
                (if auto_reconnect s \<and> \<not> Socket_connected T s net
                 then Socket_open T s net = (Inr (), s', net0) else s' = s \<and> net0 = net)
              \<and> writer s' = Some w
              \<and> writer_writelines T w lines net0 = (Inr (), net1)
              \<and> writer_drain T w net1 = (Inr (), net2)
              \<and> nets ! 0 = net2 \<and> last nets = net'
              \<and> (0 < c \<longrightarrow> reader s' \<noteq> None)
              \<and> (\<forall>r. reader s' = Some r \<longrightarrow> line_replies T r nets ls'))"
    if h: "Socket_writelines_readlines T lines (Some c) s net = ((ls', None), s', net')"
  proof -
    obtain s0 net0 where
      entry: "if auto_reconnect s \<and> \<not> Socket_connected T s net
        then Socket_open T s net = (Inr (), s0, net0) else s0 = s \<and> net0 = net"
      and body: "writelines_readlines_body T lines (Some c) s0 net0 = ((ls', None), s', net')"
      using h
      by (auto simp: Socket_writelines_readlines_def ensure_connection_gen_def
               split: if_splits prod.splits sum.splits)
    from body obtain w net1 net2 where
      w: "writer s0 = Some w" "writer_writelines T w lines net0 = (Inr (), net1)"
         "writer_drain T w net1 = (Inr (), net2)"
         "readlines_loop T (nat c) s0 net2 = ((ls', None), s', net')"
      by (auto simp: writelines_readlines_body_def writelines_body_def awaited_def
               split: option.splits prod.splits sum.splits)
    have s': "s' = s0"
      using readlines_loop_socket [OF w(4)] .
    from readlines_loop_trace [OF w(4)] obtain nets where
      nets: "length ls' = nat c" "nets ! 0 = net2" "last nets = net'"
        "0 < nat c \<longrightarrow> reader s0 \<noteq> None"
        "\<forall>r. reader s0 = Some r \<longrightarrow> line_replies T r nets ls'"
      by auto
    have "(if auto_reconnect s \<and> \<not> Socket_connected T s net
                 then Socket_open T s net = (Inr (), s', net0) else s' = s \<and> net0 = net)
              \<and> writer s' = Some w
              \<and> writer_writelines T w lines net0 = (Inr (), net1)
              \<and> writer_drain T w net1 = (Inr (), net2)
              \<and> nets ! 0 = net2 \<and> last nets = net'
              \<and> (0 < c \<longrightarrow> reader s' \<noteq> None)
              \<and> (\<forall>r. reader s' = Some r \<longrightarrow> line_replies T r nets ls')"
      using entry w(1-3) nets s' by simp
    then have "\<exists>w net0 net1 net2 nets.
                (if auto_reconnect s \<and> \<not> Socket_connected T s net
                 then Socket_open T s net = (Inr (), s', net0) else s' = s \<and> net0 = net)
              \<and> writer s' = Some w
              \<and> writer_writelines T w lines net0 = (Inr (), net1)
              \<and> writer_drain T w net1 = (Inr (), net2)
              \<and> nets ! 0 = net2 \<and> last nets = net'
              \<and> (0 < c \<longrightarrow> reader s' \<noteq> None)
              \<and> (\<forall>r. reader s' = Some r \<longrightarrow> line_replies T r nets ls')"
      by blast
    with nets(1) show ?thesis
      by simp
  qed
  show ?thesis
    using a b c by blast
qed

theorem writelines_readlines_count_witness:
  "Socket_writelines_readlines fake [''*IDN?'' @ [CHR 0x0A], ''SYST:ERR?'' @ [CHR 0x0A]] None
       dev scpi_net =
     (([''ACME,1.0'' @ [CHR 0x0A], ''0,No error'' @ [CHR 0x0A]], None), dev1,
      one_conn scpi_net [] (''*IDN?'' @ [CHR 0x0A] @ ''SYST:ERR?'' @ [CHR 0x0A]))
   \<and> Socket_writelines_readlines fake [''*IDN?'' @ [CHR 0x0A], ''SYST:ERR?'' @ [CHR 0x0A]]
       (Some 1) dev scpi_net =
     (([''ACME,1.0'' @ [CHR 0x0A]], None), dev1,
      one_conn scpi_net (''0,No error'' @ [CHR 0x0A])
        (''*IDN?'' @ [CHR 0x0A] @ ''SYST:ERR?'' @ [CHR 0x0A]))
   \<and> length [''ACME,1.0'' @ [CHR 0x0A], ''0,No error'' @ [CHR 0x0A]] =
       length [''*IDN?'' @ [CHR 0x0A], ''SYST:ERR?'' @ [CHR 0x0A]]"
proof -
  let ?lines = "[''*IDN?'' @ [CHR 0x0A], ''SYST:ERR?'' @ [CHR 0x0A]]"
  let ?out = "''*IDN?'' @ [CHR 0x0A] @ ''SYST:ERR?'' @ [CHR 0x0A]"
  let ?both = "''ACME,1.0'' @ [CHR 0x0A] @ ''0,No error'' @ [CHR 0x0A]"
  let ?accepted = "one_conn scpi_net ?both []"
  let ?sent = "one_conn scpi_net ?both ?out"
  let ?mid = "one_conn scpi_net (''0,No error'' @ [CHR 0x0A]) ?out"
  let ?fin = "one_conn scpi_net [] ?out"
  have nc: "auto_reconnect dev \<and> \<not> Socket_connected fake dev scpi_net"
    by (simp add: Socket_connected_def dev_defs)
  have op: "Socket_open fake dev scpi_net =
      (Inr (), dev1,
       one_conn scpi_net (''ACME,1.0'' @ [CHR 0x0A] @ ''0,No error'' @ [CHR 0x0A]) [])"
    by (simp add: Socket_open_def Socket_connected_def dev_defs scpi_defs fake_defs)
  have entry: "if auto_reconnect dev \<and> \<not> Socket_connected fake dev scpi_net
      then Socket_open fake dev scpi_net = (Inr (), dev1, ?accepted) else dev1 = dev \<and> ?accepted = scpi_net"
    using nc op by simp
  have rw: "reader dev1 = Some 0" "writer dev1 = Some 0"
    by (simp_all add: dev1_def)
  have w: "writer_writelines fake 0 ?lines ?accepted = (Inr (), ?sent)"
    by (simp add: scpi_defs fake_defs)
  have d: "writer_drain fake 0 ?sent = (Inr (), ?sent)"
    by (simp add: scpi_defs fake_defs)
  have one: "line_replies fake 0 [?sent, ?mid] [''ACME,1.0'' @ [CHR 0x0A]]"
    by (simp add: line_replies_Cons line_replies_Nil scpi_defs fake_defs)
  note t = writelines_readlines_count [where T = fake and lines = ?lines and s = dev
      and net = scpi_net and ?s0.0 = dev1 and ?net0.0 = ?accepted and r = 0 and w = 0
      and ?net1.0 = ?sent and ?net2.0 = ?sent, THEN conjunct2, THEN conjunct1, rule_format]
  have a: "Socket_writelines_readlines fake ?lines None dev scpi_net =
     (([''ACME,1.0'' @ [CHR 0x0A], ''0,No error'' @ [CHR 0x0A]], None), dev1,
      last [?sent, ?mid, ?fin])"
    by (rule t [OF entry rw w d scpi_replies]) simp_all
  have b: "Socket_writelines_readlines fake ?lines (Some 1) dev scpi_net =
     (([''ACME,1.0'' @ [CHR 0x0A]], None), dev1, last [?sent, ?mid])"
    by (rule t [OF entry rw w d one]) simp_all
  show ?thesis
    using a b by simp
qed

end
